theory Spec2Isabelle
  imports Complex_Main "HOL-Library.Log_Nat"
begin

section \<open>IEEE-754 binary64 arithmetic as numpy uses it\<close>

text \<open>
  The interpolation schedule is computed by numpy on \<^verbatim>\<open>float64\<close> arrays. A double is
  modelled by the real number it denotes, or by one of the three non-finite values. The two
  zeros are identified: the schedule takes \<^verbatim>\<open>np.abs\<close> of the base before raising it to a
  power and only compares and adds zeros, so the sign of a zero is never observed.
\<close>

datatype float64 = Fin real | PInf | NInf | NaN

text \<open>\<open>expo x\<close> is the binary exponent \<open>\<lfloor>log\<^sub>2 x\<rfloor>\<close> of a positive \<open>x\<close>, computed on integers.\<close>

definition expo :: "real \<Rightarrow> int" where
  "expo x = (if 1 \<le> x then bitlen \<lfloor>x\<rfloor> - 1 else - bitlen (\<lceil>1 / x\<rceil> - 1))"

definition round_half_even :: "real \<Rightarrow> int" where
  "round_half_even m = (let f = \<lfloor>m\<rfloor>; d = m - of_int f in
     if d < 1 / 2 then f else if 1 / 2 < d then f + 1 else if even f then f else f + 1)"

text \<open>
  Round to nearest, ties to even, with a 53-bit significand; the exponent is clamped at
  \<open>-1022\<close> (gradual underflow) and a result of magnitude \<open>2\<^sup>1\<^sup>0\<^sup>2\<^sup>4\<close> overflows to infinity.
\<close>

definition rnd :: "real \<Rightarrow> float64" where
  "rnd x = (if x = 0 then Fin 0 else
     let e = max (expo \<bar>x\<bar>) (- 1022);
         q = 2 powi (e - 52);
         r = of_int (round_half_even (\<bar>x\<bar> / q)) * q
     in if e < 1023 then Fin (sgn x * r)
        else if 2 powi 1024 \<le> r then (if 0 < x then PInf else NInf)
        else Fin (sgn x * r))"

fun fl_neg :: "float64 \<Rightarrow> float64" where
  "fl_neg (Fin a) = Fin (- a)"
| "fl_neg PInf = NInf"
| "fl_neg NInf = PInf"
| "fl_neg NaN = NaN"

fun fl_add :: "float64 \<Rightarrow> float64 \<Rightarrow> float64" where
  "fl_add (Fin a) (Fin b) = rnd (a + b)"
| "fl_add NaN _ = NaN"
| "fl_add _ NaN = NaN"
| "fl_add PInf NInf = NaN"
| "fl_add NInf PInf = NaN"
| "fl_add PInf _ = PInf"
| "fl_add NInf _ = NInf"
| "fl_add (Fin a) x = x"

definition fl_sub :: "float64 \<Rightarrow> float64 \<Rightarrow> float64" where
  "fl_sub x y = fl_add x (fl_neg y)"

fun fl_mul :: "float64 \<Rightarrow> float64 \<Rightarrow> float64" where
  "fl_mul (Fin a) (Fin b) = rnd (a * b)"
| "fl_mul NaN _ = NaN"
| "fl_mul _ NaN = NaN"
| "fl_mul (Fin a) x = (if a = 0 then NaN else if 0 < a then x else fl_neg x)"
| "fl_mul x (Fin b) = (if b = 0 then NaN else if 0 < b then x else fl_neg x)"
| "fl_mul PInf x = x"
| "fl_mul NInf x = fl_neg x"

fun fl_div :: "float64 \<Rightarrow> float64 \<Rightarrow> float64" where
  "fl_div NaN _ = NaN"
| "fl_div _ NaN = NaN"
| "fl_div (Fin a) (Fin b) =
     (if b = 0 then (if a = 0 then NaN else if 0 < a then PInf else NInf) else rnd (a / b))"
| "fl_div (Fin a) _ = Fin 0"
| "fl_div x (Fin b) = (if 0 \<le> b then x else fl_neg x)"
| "fl_div _ _ = NaN"

text \<open>\<^verbatim>\<open>np.abs\<close> and \<^verbatim>\<open>np.sign\<close> (the sign of zero is zero, the sign of NaN is NaN).\<close>

fun np_abs :: "float64 \<Rightarrow> float64" where
  "np_abs (Fin a) = Fin \<bar>a\<bar>"
| "np_abs PInf = PInf"
| "np_abs NInf = PInf"
| "np_abs NaN = NaN"

fun np_sign :: "float64 \<Rightarrow> float64" where
  "np_sign (Fin a) = Fin (sgn a)"
| "np_sign PInf = Fin 1"
| "np_sign NInf = Fin (- 1)"
| "np_sign NaN = NaN"

fun fl_pos :: "float64 \<Rightarrow> bool" where
  "fl_pos (Fin a) = (0 < a)"
| "fl_pos PInf = True"
| "fl_pos NInf = False"
| "fl_pos NaN = False"

fun odd_integer :: "float64 \<Rightarrow> bool" where
  "odd_integer (Fin a) = (of_int \<lfloor>a\<rfloor> = a \<and> odd \<lfloor>a\<rfloor>)"
| "odd_integer _ = False"

text \<open>
  \<^verbatim>\<open>x ** y\<close> on doubles is the C library's \<^verbatim>\<open>pow\<close>. Its special cases are fixed by
  C99 Annex F.9.4.4 and are written out below, together with \<^verbatim>\<open>pow(x, 1) = x\<close> (the exact
  result is representable). What \<^verbatim>\<open>pow\<close> returns on the remaining finite arguments depends
  on the C library (it is not required to be correctly rounded), so it is the
  parameter \<open>libm\<close>.
\<close>

definition np_power :: "(real \<Rightarrow> real \<Rightarrow> float64) \<Rightarrow> float64 \<Rightarrow> float64 \<Rightarrow> float64" where
  "np_power libm x y =
     (if y = Fin 0 \<or> x = Fin 1 then Fin 1
      else case x of
        NaN \<Rightarrow> NaN
      | PInf \<Rightarrow> (case y of NaN \<Rightarrow> NaN | _ \<Rightarrow> if fl_pos y then PInf else Fin 0)
      | NInf \<Rightarrow> (case y of NaN \<Rightarrow> NaN
                 | _ \<Rightarrow> if fl_pos y then (if odd_integer y then NInf else PInf) else Fin 0)
      | Fin a \<Rightarrow> (case y of
            NaN \<Rightarrow> NaN
          | PInf \<Rightarrow> if \<bar>a\<bar> < 1 then Fin 0 else if \<bar>a\<bar> = 1 then Fin 1 else PInf
          | NInf \<Rightarrow> if \<bar>a\<bar> < 1 then PInf else if \<bar>a\<bar> = 1 then Fin 1 else Fin 0
          | Fin b \<Rightarrow> if a = 0 then (if 0 < b then Fin 0 else PInf)
                     else if b = 1 then Fin a
                     else libm a b))"

text \<open>A C library whose \<^verbatim>\<open>pow\<close> is correctly rounded on positive bases.\<close>

definition correctly_rounded_pow :: "real \<Rightarrow> real \<Rightarrow> float64" where
  "correctly_rounded_pow a b = rnd (a powr b)"

section \<open>The interpolation schedule\<close>

datatype error =
    ValueError string
  | IndexError string
  | AttributeError string
  | FileNotFoundError string
  | ExternalError string

text \<open>
  \<^verbatim>\<open>np.linspace(start, stop, num)\<close> with the default \<^verbatim>\<open>endpoint=True\<close>: a negative
  \<^verbatim>\<open>num\<close> raises, \<^verbatim>\<open>arange(0, num)\<close> is scaled by \<^verbatim>\<open>step = delta / div\<close> and shifted
  by \<^verbatim>\<open>start\<close>, and for \<^verbatim>\<open>num > 1\<close> the last entry is overwritten with \<^verbatim>\<open>stop\<close>.
  (numpy's message also quotes the number of samples; the model's message leaves it out.)
\<close>

definition linspace :: "float64 \<Rightarrow> float64 \<Rightarrow> int \<Rightarrow> error + float64 list" where
  "linspace start stop num =
     (if num < 0 then Inl (ValueError ''Number of samples must be non-negative.'')
      else
        let dv = num - 1;
            delta = fl_sub stop start;
            y = map (\<lambda>i. Fin (of_nat i)) [0..<nat num]
        in if 0 < dv then
             let step = fl_div delta (Fin (of_int dv));
                 y = (if step = Fin 0
                      then map (\<lambda>v. fl_mul (fl_div v (Fin (of_int dv))) delta) y
                      else map (\<lambda>v. fl_mul v step) y);
                 y = map (\<lambda>v. fl_add v start) y
             in Inr (butlast y @ [stop])
           else Inr (map (\<lambda>v. fl_add (fl_mul v delta) start) y))"

text \<open>
  The schedule of \<^verbatim>\<open>render\<close> (lines 101-106):
  \<^verbatim>\<open>alphas = np.linspace(0, 1, num_interpolation_steps)\<close>,
  \<^verbatim>\<open>alphas_shifted = alphas * 2 - 1\<close>,
  \<^verbatim>\<open>alphas_shifted = (np.abs(alphas_shifted) ** alpha_power * np.sign(alphas_shifted) + 1) / 2\<close>.
\<close>

definition render_alphas ::
  "(real \<Rightarrow> real \<Rightarrow> float64) \<Rightarrow> int \<Rightarrow> float64 \<Rightarrow> error + float64 list" where
  "render_alphas libm num_interpolation_steps alpha_power =
     (case linspace (Fin 0) (Fin 1) num_interpolation_steps of
        Inl e \<Rightarrow> Inl e
      | Inr alphas \<Rightarrow>
          let alphas_shifted = map (\<lambda>a. fl_sub (fl_mul a (Fin 2)) (Fin 1)) alphas;
              alphas_shifted =
                map (\<lambda>s. fl_div
                            (fl_add (fl_mul (np_power libm (np_abs s) alpha_power) (np_sign s))
                               (Fin 1))
                            (Fin 2))
                  alphas_shifted
          in Inr alphas_shifted)"

text \<open>The schedule of \<^verbatim>\<open>prepare_interpolation\<close> (lines 386-391), written from its own lines.\<close>

definition prepare_alphas ::
  "(real \<Rightarrow> real \<Rightarrow> float64) \<Rightarrow> int \<Rightarrow> float64 \<Rightarrow> error + float64 list" where
  "prepare_alphas libm num_interpolation_steps alpha_power =
     (case linspace (Fin 0) (Fin 1) num_interpolation_steps of
        Inl e \<Rightarrow> Inl e
      | Inr alphas \<Rightarrow>
          let alphas_shifted = map (\<lambda>a. fl_sub (fl_mul a (Fin 2)) (Fin 1)) alphas;
              alphas_shifted =
                map (\<lambda>s. fl_div
                            (fl_add (fl_mul (np_power libm (np_abs s) alpha_power) (np_sign s))
                               (Fin 1))
                            (Fin 2))
                  alphas_shifted
          in Inr alphas_shifted)"

section \<open>Data of the interpolation task\<close>

text \<open>
  Modelled from the spec: \<^verbatim>\<open>PromptInput\<close> and \<^verbatim>\<open>InferenceInput\<close> are dataclasses of
  \<^verbatim>\<open>riffusion.datatypes\<close>, which is not among the sources. Their fields are the keyword
  arguments the code passes (\<^verbatim>\<open>prompt\<close>, \<^verbatim>\<open>seed\<close>, \<^verbatim>\<open>negative_prompt\<close>, \<^verbatim>\<open>denoising\<close>,
  \<^verbatim>\<open>guidance\<close>; \<^verbatim>\<open>alpha\<close>, \<^verbatim>\<open>num_inference_steps\<close>, \<^verbatim>\<open>seed_image_id\<close>, \<^verbatim>\<open>start\<close>,
  \<^verbatim>\<open>end\<close>), as in the spec's PromptEndpoint and InterpolationRequest. An instance of a
  dataclass is truthy whatever its fields hold, so \<^verbatim>\<open>not prompt_a\<close> is true only of
  \<^verbatim>\<open>None\<close>.
\<close>

record PromptInput =
  prompt :: string
  seed :: int
  negative_prompt :: "string option"
  denoising :: float64
  guidance :: float64

record InferenceInput =
  alpha :: float64
  num_inference_steps :: int
  seed_image_id :: string
  start :: PromptInput
  endp :: PromptInput

record SpectrogramParams =
  min_frequency :: int
  max_frequency :: int

text \<open>An \<^verbatim>\<open>io.BytesIO\<close>: its content and the position of its cursor.\<close>

record BytesIO =
  getvalue :: string
  tell :: nat

text \<open>
  What a caller hands over as \<^verbatim>\<open>init_image_file\<close>: the parameter is declared
  \<^verbatim>\<open>Optional[io.BytesIO]\<close>, and Python does not stop a caller from passing an image that
  PIL has already decoded. Both kinds of object are truthy.
\<close>

datatype 'img seed_file = Buffer BytesIO | Decoded 'img

text \<open>
  The collaborators the task calls, none of them among the sources: the C library's
  \<^verbatim>\<open>pow\<close>, \<^verbatim>\<open>torch.cuda.is_available\<close>, \<^verbatim>\<open>streamlit_util.DEFAULT_CHECKPOINT\<close>, PIL's
  \<^verbatim>\<open>Image.open\<close> on a seed image of the asset directory and on an uploaded buffer, PIL's
  \<^verbatim>\<open>convert("RGB")\<close>, the pipeline loader, the pipeline's \<^verbatim>\<open>riffuse\<close>, the spectrogram
  decoder, and pydub's \<^verbatim>\<open>AudioSegment.from_file\<close> and \<^verbatim>\<open>export\<close>. Each one that can raise
  returns a sum. An audio segment is the list of its frames.
\<close>

record ('img, 'pipe, 'frame) env =
  libm_pow :: "real \<Rightarrow> real \<Rightarrow> float64"
  cuda_is_available :: bool
  DEFAULT_CHECKPOINT :: string
  open_seed_image :: "string \<Rightarrow> error + 'img"
  open_uploaded_image :: "BytesIO \<Rightarrow> error + 'img"
  convert_RGB :: "'img \<Rightarrow> 'img"
  load_riffusion_checkpoint :: "string \<Rightarrow> string \<Rightarrow> bool \<Rightarrow> error + 'pipe"
  riffuse :: "'pipe \<Rightarrow> InferenceInput \<Rightarrow> 'img \<Rightarrow> 'img option \<Rightarrow> error + 'img"
  audio_bytes_from_spectrogram_image ::
    "'img \<Rightarrow> SpectrogramParams \<Rightarrow> string \<Rightarrow> string \<Rightarrow> error + BytesIO"
  from_file :: "BytesIO \<Rightarrow> error + 'frame list"
  export :: "'frame list \<Rightarrow> string \<Rightarrow> error + string"

section \<open>The cached inference\<close>

text \<open>
  The arguments of one call of \<^verbatim>\<open>run_interpolation\<close>: inputs, init image, checkpoint, device
  and extension. The process state holds the memo table of \<^verbatim>\<open>@st.cache_data\<close> and two
  logs: every call of \<^verbatim>\<open>run_interpolation\<close>, and every execution of its body.
\<close>

type_synonym 'img call = "InferenceInput \<times> 'img \<times> string \<times> string \<times> string"

record 'img session =
  cache :: "('img call \<times> ('img \<times> BytesIO)) list"
  requested :: "'img call list"
  computed :: "'img call list"

text \<open>The body of \<^verbatim>\<open>run_interpolation\<close> (lines 298-325).\<close>

definition run_interpolation_body ::
  "('img, 'pipe, 'frame) env \<Rightarrow> InferenceInput \<Rightarrow> 'img \<Rightarrow> string \<Rightarrow> string \<Rightarrow> string
     \<Rightarrow> error + ('img \<times> BytesIO)" where
  "run_interpolation_body env inputs init_image checkpoint device extension =
     (case load_riffusion_checkpoint env device checkpoint True of
        Inl e \<Rightarrow> Inl e
      | Inr pipeline \<Rightarrow>
          (case riffuse env pipeline inputs init_image None of
             Inl e \<Rightarrow> Inl e
           | Inr img \<Rightarrow>
               let params = \<lparr>min_frequency = 0, max_frequency = 10000\<rparr> in
               (case audio_bytes_from_spectrogram_image env img params device extension of
                  Inl e \<Rightarrow> Inl e
                | Inr audio_bytes \<Rightarrow> Inr (img, audio_bytes))))"

text \<open>
  Modelled from the spec: the decorator \<^verbatim>\<open>@st.cache_data\<close> around that body belongs to
  Streamlit and is not among the sources. It follows the spec's caching contract (4.2.1):
  the key is the whole argument tuple, a hit returns the stored pair without running the
  body, a miss runs the body and stores what it returns, and a body that raises stores
  nothing.
\<close>

definition run_interpolation ::
  "('img, 'pipe, 'frame) env \<Rightarrow> InferenceInput \<Rightarrow> 'img \<Rightarrow> string \<Rightarrow> string \<Rightarrow> string
     \<Rightarrow> 'img session \<Rightarrow> (error + ('img \<times> BytesIO)) \<times> 'img session" where
  "run_interpolation env inputs init_image checkpoint device extension s =
     (let key = (inputs, init_image, checkpoint, device, extension);
          s = s\<lparr>requested := requested s @ [key]\<rparr>
      in case map_of (cache s) key of
           Some hit \<Rightarrow> (Inr hit, s)
         | None \<Rightarrow>
             (case run_interpolation_body env inputs init_image checkpoint device extension of
                Inl e \<Rightarrow> (Inl e, s\<lparr>computed := computed s @ [key]\<rparr>)
              | Inr res \<Rightarrow>
                  (Inr res, s\<lparr>computed := computed s @ [key], cache := (key, res) # cache s\<rparr>)))"

section \<open>\<^verbatim>\<open>prepare_interpolation\<close>\<close>

text \<open>Lines 372-384: the seed image.\<close>

definition prepare_init_image ::
  "('img, 'pipe, 'frame) env \<Rightarrow> string \<Rightarrow> 'img seed_file option \<Rightarrow> error + 'img" where
  "prepare_init_image env init_image_name init_image_file =
     (if init_image_name = ''custom'' then
        (case init_image_file of
           None \<Rightarrow>
             Inl (ValueError ''Custom seed image file must be provided when using 'custom'.'')
         | Some (Buffer b) \<Rightarrow>
             Inl (AttributeError ''_io.BytesIO object has no attribute convert'')
         | Some (Decoded im) \<Rightarrow> Inr (convert_RGB env im))
      else
        (case open_seed_image env init_image_name of
           Inl e \<Rightarrow> Inl e
         | Inr im \<Rightarrow> Inr (convert_RGB env im)))"

text \<open>
  Lines 396-418: one cached inference per coefficient, in the order of the schedule. (A
  variable that bears the name of a record field is written with a prime.)
\<close>

fun prepare_loop ::
  "('img, 'pipe, 'frame) env \<Rightarrow> int \<Rightarrow> PromptInput \<Rightarrow> PromptInput \<Rightarrow> 'img \<Rightarrow> string \<Rightarrow> string
     \<Rightarrow> float64 list \<Rightarrow> 'img session
     \<Rightarrow> (error + ('img list \<times> BytesIO list)) \<times> 'img session" where
  "prepare_loop env num_inference_steps' prompt_a prompt_b init_image device extension [] s =
     (Inr ([], []), s)"
| "prepare_loop env num_inference_steps' prompt_a prompt_b init_image device extension
     (a # alphas) s =
     (let inputs = \<lparr>alpha = a, num_inference_steps = num_inference_steps',
                     seed_image_id = ''og_beat'', start = prompt_a, endp = prompt_b\<rparr>
      in case run_interpolation env inputs init_image (DEFAULT_CHECKPOINT env) device extension s
         of (Inl e, s) \<Rightarrow> (Inl e, s)
          | (Inr (img, audio_bytes), s) \<Rightarrow>
              (case prepare_loop env num_inference_steps' prompt_a prompt_b init_image device
                      extension alphas s
               of (Inl e, s) \<Rightarrow> (Inl e, s)
                | (Inr (image_list, audio_bytes_list), s) \<Rightarrow>
                    (Inr (img # image_list, audio_bytes # audio_bytes_list), s)))"

text \<open>\<^verbatim>\<open>[pydub.AudioSegment.from_file(audio_bytes) for audio_bytes in audio_bytes_list]\<close>\<close>

fun decode_all ::
  "('img, 'pipe, 'frame) env \<Rightarrow> BytesIO list \<Rightarrow> error + 'frame list list" where
  "decode_all env [] = Inr []"
| "decode_all env (audio_bytes # rest) =
     (case from_file env audio_bytes of
        Inl e \<Rightarrow> Inl e
      | Inr segment \<Rightarrow>
          (case decode_all env rest of
             Inl e \<Rightarrow> Inl e
           | Inr segments \<Rightarrow> Inr (segment # segments)))"

text \<open>
  pydub's \<^verbatim>\<open>seg1.append(seg2, crossfade=0)\<close> returns \<^verbatim>\<open>seg1._spawn(seg1._data + seg2._data)\<close>:
  the frames of the second segment follow those of the first. (The segments of one run
  come out of one decoder with one format, so pydub's format synchronisation changes
  nothing.)
\<close>

definition append_crossfade0 :: "'frame list \<Rightarrow> 'frame list \<Rightarrow> 'frame list" where
  "append_crossfade0 seg1 seg2 = seg1 @ seg2"

text \<open>Lines 422-424 of \<^verbatim>\<open>prepare_interpolation\<close>.\<close>

definition prepare_concat :: "'frame list list \<Rightarrow> error + 'frame list" where
  "prepare_concat audio_segments =
     (case audio_segments of
        [] \<Rightarrow> Inl (IndexError ''list index out of range'')
      | concat_segment # rest \<Rightarrow>
          Inr (foldl (\<lambda>concat_segment segment. append_crossfade0 concat_segment segment)
                 concat_segment rest))"

text \<open>Lines 180-183 of \<^verbatim>\<open>render\<close>, written from its own lines.\<close>

definition render_concat :: "'frame list list \<Rightarrow> error + 'frame list" where
  "render_concat audio_segments =
     (case audio_segments of
        [] \<Rightarrow> Inl (IndexError ''list index out of range'')
      | concat_segment # rest \<Rightarrow>
          Inr (foldl (\<lambda>concat_segment segment. append_crossfade0 concat_segment segment)
                 concat_segment rest))"

text \<open>Lines 420-430: decode, concatenate, export, rewind.\<close>

definition prepare_final_audio ::
  "('img, 'pipe, 'frame) env \<Rightarrow> string \<Rightarrow> BytesIO list \<Rightarrow> error + BytesIO" where
  "prepare_final_audio env extension audio_bytes_list =
     (case decode_all env audio_bytes_list of
        Inl e \<Rightarrow> Inl e
      | Inr audio_segments \<Rightarrow>
          (case prepare_concat audio_segments of
             Inl e \<Rightarrow> Inl e
           | Inr concat_segment \<Rightarrow>
               (case export env concat_segment extension of
                  Inl e \<Rightarrow> Inl e
                | Inr written \<Rightarrow>
                    let final_audio_bytes = \<lparr>getvalue = written, tell = length written\<rparr>
                    in Inr (final_audio_bytes\<lparr>tell := 0\<rparr>))))"

text \<open>
  The function itself. \<^verbatim>\<open>guidance\<close>, \<^verbatim>\<open>show_individual_outputs\<close> and \<^verbatim>\<open>show_images\<close> only
  feed \<^verbatim>\<open>print\<close> and \<^verbatim>\<open>image.show()\<close>, which the model leaves out.
\<close>

definition prepare_interpolation ::
  "('img, 'pipe, 'frame) env \<Rightarrow> string \<Rightarrow> int \<Rightarrow> int \<Rightarrow> float64 \<Rightarrow> string
     \<Rightarrow> 'img seed_file option \<Rightarrow> float64 \<Rightarrow> bool \<Rightarrow> bool
     \<Rightarrow> PromptInput option \<Rightarrow> PromptInput option \<Rightarrow> 'img session
     \<Rightarrow> (error + BytesIO) \<times> 'img session" where
  "prepare_interpolation env extension num_interpolation_steps num_inference_steps' guidance'
     init_image_name init_image_file alpha_power show_individual_outputs show_images
     prompt_a prompt_b s =
     (let device = (if cuda_is_available env then ''cuda'' else ''cpu'') in
      case (prompt_a, prompt_b) of
        (Some prompt_a, Some prompt_b) \<Rightarrow>
          (case prepare_init_image env init_image_name init_image_file of
             Inl e \<Rightarrow> (Inl e, s)
           | Inr init_image \<Rightarrow>
               (case prepare_alphas (libm_pow env) num_interpolation_steps alpha_power of
                  Inl e \<Rightarrow> (Inl e, s)
                | Inr alphas \<Rightarrow>
                    (case prepare_loop env num_inference_steps' prompt_a prompt_b init_image
                            device extension alphas s
                     of (Inl e, s) \<Rightarrow> (Inl e, s)
                      | (Inr (image_list, audio_bytes_list), s) \<Rightarrow>
                          (prepare_final_audio env extension audio_bytes_list, s))))
      | _ \<Rightarrow>
          (Inl (ValueError
             ''Both prompts (prompt_a and prompt_b) must be provided for interpolation.''), s))"

section \<open>\<^verbatim>\<open>render\<close>\<close>

text \<open>
  The page reads its inputs from widgets; the model takes the values the widgets return as
  arguments, and what \<^verbatim>\<open>get_prompt_inputs\<close> collects for one prompt as a record. The page
  draws its results; the model returns what it would draw last: the message of
  \<^verbatim>\<open>st.info\<close> on an early return, or the final audio and its download name.
\<close>

record prompt_inputs =
  prompt_widget :: string
  seed_widget :: int
  denoising_widget :: float64

datatype render_outcome = Info string | FinalOutput BytesIO string

text \<open>Lines 134-143: an uploaded file is decoded with \<^verbatim>\<open>Image.open\<close> before it is converted.\<close>

definition render_init_image ::
  "('img, 'pipe, 'frame) env \<Rightarrow> string \<Rightarrow> BytesIO option \<Rightarrow> error + 'img option" where
  "render_init_image env init_image_name init_image_file =
     (if init_image_name = ''custom'' then
        (case init_image_file of
           None \<Rightarrow> Inr None
         | Some b \<Rightarrow>
             (case open_uploaded_image env b of
                Inl e \<Rightarrow> Inl e
              | Inr im \<Rightarrow> Inr (Some (convert_RGB env im))))
      else
        (case open_seed_image env init_image_name of
           Inl e \<Rightarrow> Inl e
         | Inr im \<Rightarrow> Inr (Some (convert_RGB env im))))"

text \<open>Lines 148-175.\<close>

fun render_loop ::
  "('img, 'pipe, 'frame) env \<Rightarrow> int \<Rightarrow> PromptInput \<Rightarrow> PromptInput \<Rightarrow> 'img \<Rightarrow> string \<Rightarrow> string
     \<Rightarrow> float64 list \<Rightarrow> 'img session
     \<Rightarrow> (error + ('img list \<times> BytesIO list)) \<times> 'img session" where
  "render_loop env num_inference_steps' prompt_input_a prompt_input_b init_image device
     extension [] s = (Inr ([], []), s)"
| "render_loop env num_inference_steps' prompt_input_a prompt_input_b init_image device
     extension (a # alphas) s =
     (let inputs = \<lparr>alpha = a, num_inference_steps = num_inference_steps',
                     seed_image_id = ''og_beat'', start = prompt_input_a,
                     endp = prompt_input_b\<rparr>
      in case run_interpolation env inputs init_image (DEFAULT_CHECKPOINT env) device extension s
         of (Inl e, s) \<Rightarrow> (Inl e, s)
          | (Inr (img, audio_bytes), s) \<Rightarrow>
              (case render_loop env num_inference_steps' prompt_input_a prompt_input_b
                      init_image device extension alphas s
               of (Inl e, s) \<Rightarrow> (Inl e, s)
                | (Inr (image_list, audio_bytes_list), s) \<Rightarrow>
                    (Inr (img # image_list, audio_bytes # audio_bytes_list), s)))"

text \<open>Lines 180-187.\<close>

definition render_final_audio ::
  "('img, 'pipe, 'frame) env \<Rightarrow> string \<Rightarrow> BytesIO list \<Rightarrow> error + BytesIO" where
  "render_final_audio env extension audio_bytes_list =
     (case decode_all env audio_bytes_list of
        Inl e \<Rightarrow> Inl e
      | Inr audio_segments \<Rightarrow>
          (case render_concat audio_segments of
             Inl e \<Rightarrow> Inl e
           | Inr concat_segment \<Rightarrow>
               (case export env concat_segment extension of
                  Inl e \<Rightarrow> Inl e
                | Inr written \<Rightarrow>
                    let audio_bytes = \<lparr>getvalue = written, tell = length written\<rparr>
                    in Inr (audio_bytes\<lparr>tell := 0\<rparr>))))"

definition replace_space :: "string \<Rightarrow> string" where
  "replace_space t = map (\<lambda>c. if c = CHR '' '' then CHR ''_'' else c) t"

definition render ::
  "('img, 'pipe, 'frame) env \<Rightarrow> string \<Rightarrow> string \<Rightarrow> int \<Rightarrow> int \<Rightarrow> float64 \<Rightarrow> string
     \<Rightarrow> BytesIO option \<Rightarrow> float64 \<Rightarrow> bool \<Rightarrow> bool \<Rightarrow> prompt_inputs \<Rightarrow> prompt_inputs
     \<Rightarrow> 'img session \<Rightarrow> (error + render_outcome) \<times> 'img session" where
  "render env device extension num_interpolation_steps num_inference_steps' guidance'
     init_image_name init_image_file alpha_power show_individual_outputs show_images
     widgets_a widgets_b s =
     (case render_alphas (libm_pow env) num_interpolation_steps alpha_power of
        Inl e \<Rightarrow> (Inl e, s)
      | Inr alphas \<Rightarrow>
          let prompt_input_a =
                \<lparr>prompt = prompt_widget widgets_a, seed = seed_widget widgets_a,
                 negative_prompt = None, denoising = denoising_widget widgets_a,
                 guidance = guidance'\<rparr>;
              prompt_input_b =
                \<lparr>prompt = prompt_widget widgets_b, seed = seed_widget widgets_b,
                 negative_prompt = None, denoising = denoising_widget widgets_b,
                 guidance = guidance'\<rparr>
          in if prompt prompt_input_a = [] \<or> prompt prompt_input_b = []
             then (Inr (Info ''Enter both prompts to interpolate between them''), s)
             else
               (case render_init_image env init_image_name init_image_file of
                  Inl e \<Rightarrow> (Inl e, s)
                | Inr None \<Rightarrow> (Inr (Info ''Upload a custom seed image''), s)
                | Inr (Some init_image) \<Rightarrow>
                    (case render_loop env num_inference_steps' prompt_input_a prompt_input_b
                            init_image device extension alphas s
                     of (Inl e, s) \<Rightarrow> (Inl e, s)
                      | (Inr (image_list, audio_bytes_list), s) \<Rightarrow>
                          (case render_final_audio env extension audio_bytes_list of
                             Inl e \<Rightarrow> (Inl e, s)
                           | Inr audio_bytes \<Rightarrow>
                               (Inr (FinalOutput audio_bytes
                                  (replace_space (prompt prompt_input_a) @ ''_'' @
                                   replace_space (prompt prompt_input_b) @ ''.'' @
                                   extension)), s)))))"

section \<open>A test double for the collaborators\<close>

text \<open>
  A concrete environment on which the functions can be run: images are numbers, the seed
  image \<^verbatim>\<open>og_beat\<close> is image 7 and no other asset exists, the pipeline paints image
  \<open>1 + \<lfloor>2 \<alpha>\<rfloor>\<close> for the coefficient \<open>\<alpha>\<close>, image \<open>k\<close> sounds for \<open>k\<close> frames, and export
  writes one byte per frame.
\<close>

definition mock_env :: "(nat, unit, nat) env" where
  "mock_env =
     \<lparr>libm_pow = correctly_rounded_pow,
      cuda_is_available = False,
      DEFAULT_CHECKPOINT = ''riffusion/riffusion-model-v1'',
      open_seed_image =
        (\<lambda>name. if name = ''og_beat'' then Inr 7 else Inl (FileNotFoundError name)),
      open_uploaded_image = (\<lambda>b. Inr (length (getvalue b))),
      convert_RGB = (\<lambda>im. im),
      load_riffusion_checkpoint = (\<lambda>device checkpoint no_traced_unet. Inr ()),
      riffuse = (\<lambda>pipeline inputs init_image mask_image.
                   Inr (case alpha inputs of Fin a \<Rightarrow> 1 + nat \<lfloor>2 * a\<rfloor> | _ \<Rightarrow> 0)),
      audio_bytes_from_spectrogram_image =
        (\<lambda>img params device output_format.
           Inr \<lparr>getvalue = replicate img (CHR ''a''), tell = 0\<rparr>),
      from_file = (\<lambda>b. Inr (map of_char (getvalue b))),
      export = (\<lambda>segment fmt. Inr (map (\<lambda>f. CHR ''x'') segment))\<rparr>"

definition empty_session :: "'img session" where
  "empty_session = \<lparr>cache = [], requested = [], computed = []\<rparr>"

definition church_bells :: PromptInput where
  "church_bells =
     \<lparr>prompt = ''church bells'', seed = 42, negative_prompt = None,
      denoising = Fin (3 / 4), guidance = Fin 7\<rparr>"

definition jazz :: PromptInput where
  "jazz =
     \<lparr>prompt = ''jazz'', seed = 42, negative_prompt = None,
      denoising = Fin (3 / 4), guidance = Fin 7\<rparr>"

section \<open>Notions used to state the properties\<close>

text \<open>The call that the loop issues for the coefficient \<open>a\<close>.\<close>

definition step_call ::
  "('img, 'pipe, 'frame) env \<Rightarrow> int \<Rightarrow> PromptInput \<Rightarrow> PromptInput \<Rightarrow> 'img \<Rightarrow> string \<Rightarrow> string
     \<Rightarrow> float64 \<Rightarrow> 'img call" where
  "step_call env num_inference_steps' prompt_a prompt_b init_image device extension a =
     (\<lparr>alpha = a, num_inference_steps = num_inference_steps', seed_image_id = ''og_beat'',
       start = prompt_a, endp = prompt_b\<rparr>,
      init_image, DEFAULT_CHECKPOINT env, device, extension)"

text \<open>The session after a list of further calls of \<^verbatim>\<open>run_interpolation\<close>.\<close>

fun replay :: "('img, 'pipe, 'frame) env \<Rightarrow> 'img call list \<Rightarrow> 'img session \<Rightarrow> 'img session" where
  "replay env [] s = s"
| "replay env ((inputs, init_image, checkpoint, device, extension) # calls) s =
     replay env calls (snd (run_interpolation env inputs init_image checkpoint device extension s))"

text \<open>No collaborator of the inference and of the audio codec raises.\<close>

definition collaborators_succeed :: "('img, 'pipe, 'frame) env \<Rightarrow> bool" where
  "collaborators_succeed env \<longleftrightarrow>
     (\<forall>device checkpoint. \<not> isl (load_riffusion_checkpoint env device checkpoint True)) \<and>
     (\<forall>pipeline inputs init_image. \<not> isl (riffuse env pipeline inputs init_image None)) \<and>
     (\<forall>img params device fmt. \<not> isl (audio_bytes_from_spectrogram_image env img params device fmt)) \<and>
     (\<forall>b. \<not> isl (from_file env b)) \<and>
     (\<forall>segment fmt. \<not> isl (export env segment fmt))"

text \<open>A finite double of the closed unit interval.\<close>

fun in_unit :: "float64 \<Rightarrow> bool" where
  "in_unit (Fin a) = (0 \<le> a \<and> a \<le> 1)"
| "in_unit _ = False"

text \<open>Two finite doubles that differ by at most \<open>eps\<close>.\<close>

definition close_to :: "real \<Rightarrow> float64 \<Rightarrow> float64 \<Rightarrow> bool" where
  "close_to eps x y = (case (x, y) of (Fin a, Fin b) \<Rightarrow> \<bar>a - b\<bar> \<le> eps | _ \<Rightarrow> False)"

text \<open>One entry of the schedule, from the entry of \<^verbatim>\<open>np.linspace\<close> it is computed from.\<close>

definition coefficient :: "(real \<Rightarrow> real \<Rightarrow> float64) \<Rightarrow> float64 \<Rightarrow> float64 \<Rightarrow> float64" where
  "coefficient libm p a =
     (let s = fl_sub (fl_mul a (Fin 2)) (Fin 1)
      in fl_div (fl_add (fl_mul (np_power libm (np_abs s) p) (np_sign s)) (Fin 1)) (Fin 2))"

text \<open>
  With exponent 1: the linear space lies in the unit interval and the schedule stays within
  \<open>2\<^sup>-\<^sup>5\<^sup>5\<close> of it.
\<close>

definition linear_ok :: "(real \<Rightarrow> real \<Rightarrow> float64) \<Rightarrow> int \<Rightarrow> bool" where
  "linear_ok libm n =
     (case linspace (Fin 0) (Fin 1) n of
        Inl e \<Rightarrow> False
      | Inr xs \<Rightarrow> list_all in_unit xs \<and>
          list_all2 (close_to (1 / 2 ^ 55)) xs (map (coefficient libm (Fin 1)) xs))"

section \<open>Rounding\<close>

lemma rnd_zero: "rnd 0 = Fin 0"
  by (simp add: rnd_def)

lemma rnd_minus: "rnd (- x) = fl_neg (rnd x)"
  by (simp add: rnd_def Let_def sgn_if)

lemma round_half_even_lower: "\<lfloor>m\<rfloor> \<le> round_half_even m"
  by (simp add: round_half_even_def Let_def)

lemma round_half_even_upper: "m \<le> of_int N \<Longrightarrow> round_half_even m \<le> N"
proof -
  assume le: "m \<le> of_int N"
  have fl: "\<lfloor>m\<rfloor> \<le> N" using le by (simp add: floor_le_iff)
  show ?thesis
  proof (cases "m = of_int \<lfloor>m\<rfloor>")
    case True
    then have "m - of_int \<lfloor>m\<rfloor> = 0" by simp
    then show ?thesis using fl by (simp add: round_half_even_def Let_def)
  next
    case False
    then have "of_int \<lfloor>m\<rfloor> < m" using of_int_floor_le [of m] by linarith
    then have "of_int \<lfloor>m\<rfloor> < (of_int N :: real)" using le by linarith
    then have "\<lfloor>m\<rfloor> + 1 \<le> N" by simp
    then show ?thesis using fl by (simp add: round_half_even_def Let_def)
  qed
qed

lemma expo_le:
  assumes "0 < x" "x \<le> 2 ^ k"
  shows "expo x \<le> int k"
proof (cases "1 \<le> x")
  case True
  let ?m = "\<lfloor>x\<rfloor>"
  have m: "0 < ?m" using True by simp
  have "?m \<le> 2 ^ k"
  proof -
    have "x \<le> of_int (2 ^ k)" using assms(2) by simp
    then have "?m \<le> \<lfloor>of_int (2 ^ k) :: real\<rfloor>" by (rule floor_mono)
    then show ?thesis by (simp only: floor_of_int)
  qed
  moreover have "2 ^ nat (bitlen ?m - 1) \<le> ?m" using bitlen_bounds [OF m] by simp
  ultimately have "(2::int) ^ nat (bitlen ?m - 1) \<le> 2 ^ k" by linarith
  then have "nat (bitlen ?m - 1) \<le> k" by simp
  then show ?thesis using True by (simp add: expo_def)
next
  case False
  then show ?thesis using bitlen_nonneg [of "\<lceil>1 / x\<rceil> - 1"] by (simp add: expo_def)
qed

lemma rnd_range:
  assumes x: "0 \<le> x" "x \<le> 2 ^ k" and k: "k \<le> 1"
  shows "\<exists>r. rnd x = Fin r \<and> 0 \<le> r \<and> r \<le> 2 ^ k"
proof (cases "x = 0")
  case True
  then show ?thesis by (simp add: rnd_zero)
next
  case False
  then have pos: "0 < x" using x(1) by simp
  define e where "e = max (expo x) (- 1022)"
  define q :: real where "q = 2 powi (e - 52)"
  define r where "r = of_int (round_half_even (x / q)) * q"
  have e_le: "e \<le> int k" using expo_le [OF pos x(2)] pos by (simp add: e_def)
  then have e_small: "e < 1023" using k by simp
  have q_pos: "0 < q" by (simp add: q_def)
  have rnd: "rnd x = Fin r"
    using False pos e_small unfolding r_def q_def e_def by (simp add: rnd_def Let_def)
  have "0 \<le> \<lfloor>x / q\<rfloor>" using pos q_pos by simp
  then have "0 \<le> round_half_even (x / q)" using round_half_even_lower [of "x / q"] by linarith
  then have r0: "0 \<le> r" using q_pos by (simp add: r_def)
  define N :: int where "N = 2 ^ nat (int k - e + 52)"
  have inv: "(2::real) powi (52 - e) = 1 / q"
  proof -
    have "52 - e = - (e - 52)" by simp
    then show ?thesis by (simp only: q_def power_int_minus inverse_eq_divide)
  qed
  have "of_int N = (2::real) powi (int k - e + 52)"
    using e_le by (simp add: N_def power_int_def)
  also have "\<dots> = 2 powi (int k + (52 - e))"
    by (simp add: algebra_simps)
  also have "\<dots> = 2 powi int k * 2 powi (52 - e)"
    by (rule power_int_add) simp
  also have "\<dots> = 2 ^ k / q"
    by (simp only: inv power_int_of_nat times_divide_eq_right mult_1_right)
  finally have N: "of_int N = 2 ^ k / q" .
  have "x / q \<le> of_int N"
    using x pos q_pos by (simp add: N divide_right_mono)
  then have "round_half_even (x / q) \<le> N" by (rule round_half_even_upper)
  then have "of_int (round_half_even (x / q)) \<le> (of_int N :: real)" by simp
  then have "r \<le> of_int N * q" using q_pos by (simp add: r_def)
  also have "\<dots> = 2 ^ k" using q_pos by (simp add: N)
  finally show ?thesis using rnd r0 by simp
qed

lemma rnd_unit: "0 \<le> x \<Longrightarrow> x \<le> 1 \<Longrightarrow> \<exists>r. rnd x = Fin r \<and> 0 \<le> r \<and> r \<le> 1"
  using rnd_range [of x 0] by simp

lemma rnd_two: "0 \<le> x \<Longrightarrow> x \<le> 2 \<Longrightarrow> \<exists>r. rnd x = Fin r \<and> 0 \<le> r \<and> r \<le> 2"
  using rnd_range [of x 1] by simp

lemma rnd_abs_unit: "\<bar>x\<bar> \<le> 1 \<Longrightarrow> \<exists>r. rnd x = Fin r \<and> \<bar>r\<bar> \<le> 1"
proof (cases "0 \<le> x")
  case True
  assume "\<bar>x\<bar> \<le> 1"
  then show ?thesis using rnd_unit [of x] True by auto
next
  case False
  assume "\<bar>x\<bar> \<le> 1"
  then obtain r where "rnd (- x) = Fin r" "0 \<le> r" "r \<le> 1"
    using rnd_unit [of "- x"] False by auto
  then have "rnd x = Fin (- r)" using rnd_minus [of "- x"] by simp
  then show ?thesis using \<open>0 \<le> r\<close> \<open>r \<le> 1\<close> by simp
qed

section \<open>Evaluating doubles\<close>

lemma bitlen_One: "bitlen 1 = 1" by (simp add: bitlen_alt_def)
lemma bitlen_Bit0: "bitlen (numeral (Num.Bit0 n)) = bitlen (numeral n) + 1"
  by (subst compute_bitlen) simp
lemma bitlen_Bit1: "bitlen (numeral (Num.Bit1 n)) = bitlen (numeral n) + 1"
  by (subst compute_bitlen) simp
lemmas fl_eval = rnd_def expo_def round_half_even_def Let_def bitlen_One bitlen_Bit0 bitlen_Bit1
  power_int_minus

lemma rnd_one: "rnd 1 = Fin 1" by (simp add: fl_eval)
lemma rnd_two_val: "rnd 2 = Fin 2" by (simp add: fl_eval)
lemma rnd_minus_one: "rnd (- 1) = Fin (- 1)" by (simp add: fl_eval)

lemma prepare_alphas_map:
  "prepare_alphas libm n p = map_sum id (map (coefficient libm p)) (linspace (Fin 0) (Fin 1) n)"
  by (simp add: prepare_alphas_def coefficient_def Let_def comp_def split: sum.splits)

lemma coefficient_zero: "coefficient libm p (Fin 0) = Fin 0"
  by (simp add: coefficient_def fl_sub_def rnd_zero rnd_minus_one rnd_one np_power_def)

lemma coefficient_one: "coefficient libm p (Fin 1) = Fin 1"
  by (simp add: coefficient_def fl_sub_def rnd_zero rnd_minus_one rnd_one rnd_two_val np_power_def)

lemma np_power_unit:
  assumes lib: "\<forall>a b. 0 < a \<and> a < 1 \<and> 0 < b \<longrightarrow> in_unit (libm a b)"
    and p: "fl_pos p" and a: "0 \<le> a" "a \<le> 1"
  shows "in_unit (np_power libm (Fin a) p)"
proof (cases p)
  case (Fin b)
  then have b: "0 < b" using p by simp
  show ?thesis
  proof (cases "a = 0 \<or> a = 1 \<or> b = 1")
    case True
    then show ?thesis using Fin b a by (auto simp add: np_power_def)
  next
    case False
    then have "0 < a \<and> a < 1 \<and> 0 < b" using a b by auto
    then have "in_unit (libm a b)" using lib by blast
    then show ?thesis using False Fin b by (simp add: np_power_def)
  qed
next
  case PInf
  then show ?thesis using a by (auto simp add: np_power_def)
next
  case NInf
  then show ?thesis using p by simp
next
  case NaN
  then show ?thesis using p by simp
qed

lemma coefficient_unit:
  assumes lib: "\<forall>a b. 0 < a \<and> a < 1 \<and> 0 < b \<longrightarrow> in_unit (libm a b)"
    and p: "fl_pos p" and x: "in_unit x"
  shows "in_unit (coefficient libm p x)"
proof -
  obtain v where v: "x = Fin v" "0 \<le> v" "v \<le> 1" using x by (cases x) auto
  obtain r1 where r1: "rnd (v * 2) = Fin r1" "0 \<le> r1" "r1 \<le> 2"
    using rnd_two [of "v * 2"] v by auto
  have "\<bar>r1 - 1\<bar> \<le> 1" using r1 by (simp add: abs_le_iff)
  then obtain s where s: "rnd (r1 - 1) = Fin s" "\<bar>s\<bar> \<le> 1"
    using rnd_abs_unit [of "r1 - 1"] by auto
  have "in_unit (np_power libm (Fin \<bar>s\<bar>) p)"
    using np_power_unit [OF lib p, of "\<bar>s\<bar>"] s(2) by simp
  then obtain w where w: "np_power libm (Fin \<bar>s\<bar>) p = Fin w" "0 \<le> w" "w \<le> 1"
    by (cases "np_power libm (Fin \<bar>s\<bar>) p") auto
  have "\<bar>w * sgn s\<bar> \<le> 1" using w by (simp add: abs_mult sgn_if)
  then obtain u where u: "rnd (w * sgn s) = Fin u" "\<bar>u\<bar> \<le> 1"
    using rnd_abs_unit [of "w * sgn s"] by auto
  have "0 \<le> u + 1" "u + 1 \<le> 2" using u(2) by (simp_all add: abs_le_iff)
  then obtain z where z: "rnd (u + 1) = Fin z" "0 \<le> z" "z \<le> 2"
    using rnd_two [of "u + 1"] by auto
  obtain c where c: "rnd (z / 2) = Fin c" "0 \<le> c" "c \<le> 1"
    using rnd_unit [of "z / 2"] z by auto
  show ?thesis
    using v r1 s w u z c by (simp add: coefficient_def fl_sub_def Let_def)
qed

lemma rnd_step:
  assumes "1 \<le> (dv::int)"
  shows "\<exists>st. rnd (1 / of_int dv) = Fin st"
proof -
  have "0 \<le> 1 / (of_int dv :: real)" "1 / (of_int dv :: real) \<le> 1" using assms by simp_all
  then show ?thesis using rnd_unit [of "1 / of_int dv"] by blast
qed

lemma hd_butlast_map_upt: "hd (butlast (map f [0..<Suc (Suc m)]) @ [z]) = f 0"
proof -
  have "[0..<Suc (Suc m)] = 0 # [Suc 0..<Suc (Suc m)]"
    by (rule upt_conv_Cons) simp
  moreover have "[Suc 0..<Suc (Suc m)] \<noteq> []" by simp
  ultimately show ?thesis by (simp del: upt_Suc)
qed

lemma linspace_ends:
  assumes n: "2 \<le> n"
  shows "\<exists>xs. linspace (Fin 0) (Fin 1) n = Inr xs \<and> length xs = nat n \<and>
           hd xs = Fin 0 \<and> last xs = Fin 1"
proof -
  obtain st where st: "rnd (1 / of_int (n - 1)) = Fin st"
    using rnd_step [of "n - 1"] n by auto
  obtain m where m: "nat n = Suc (Suc m)"
    using n by (metis nat_2 nat_le_iff numeral_2_eq_2 le_Suc_ex plus_nat.simps(2) nat_mono)
  have dv: "real_of_int n - 1 \<noteq> 0" using n by simp
  show ?thesis
    using n st dv
    by (auto simp add: linspace_def Let_def fl_sub_def rnd_one rnd_zero m hd_butlast_map_upt
        simp del: upt_Suc)
qed

lemma prepare_alphas_ends:
  assumes n: "2 \<le> n"
  shows "\<exists>ys. prepare_alphas libm n p = Inr ys \<and> length ys = nat n \<and>
           hd ys = Fin 0 \<and> last ys = Fin 1"
proof -
  obtain xs where xs: "linspace (Fin 0) (Fin 1) n = Inr xs" "length xs = nat n"
    "hd xs = Fin 0" "last xs = Fin 1"
    using linspace_ends [OF n] by blast
  then have "xs \<noteq> []" using n by auto
  then show ?thesis
    using xs by (simp add: prepare_alphas_map hd_map last_map coefficient_zero coefficient_one)
qed

lemma prepare_alphas_single: "prepare_alphas libm 1 p = Inr [Fin 0]"
  by (simp add: prepare_alphas_map linspace_def Let_def fl_sub_def rnd_one rnd_zero coefficient_zero)

lemma np_power_one: "np_power libm (Fin a) (Fin 1) = Fin a"
  by (simp add: np_power_def)

lemmas sched_eval = linear_ok_def linspace_def fl_sub_def coefficient_def np_power_one close_to_def
  upt_conv_Cons fl_eval

lemma linear_ok_table:
  assumes "1 \<le> n" "n \<le> 20"
  shows "linear_ok libm n"
proof -
  have "n = 20 \<or> n = 19 \<or> n = 18 \<or> n = 17 \<or> n = 16 \<or> n = 15 \<or> n = 14 \<or>
        n = 13 \<or> n = 12 \<or> n = 11 \<or> n = 10 \<or> n = 9 \<or> n = 8 \<or> n = 7 \<or>
        n = 6 \<or> n = 5 \<or> n = 4 \<or> n = 3 \<or> n = 2 \<or> n = 1"
    using assms by presburger
  then show ?thesis
    by (elim disjE) (simp_all add: sched_eval)
qed

section \<open>The cache and the loop\<close>

lemma run_interpolation_requested:
  "requested (snd (run_interpolation env i im c d x s)) = requested s @ [(i, im, c, d, x)]"
  by (simp add: run_interpolation_def Let_def split: option.splits sum.splits)

lemma run_interpolation_cache_mono:
  "map_of (cache s) k = Some v \<Longrightarrow>
   map_of (cache (snd (run_interpolation env i im c d x s))) k = Some v"
  by (auto simp add: run_interpolation_def Let_def split: option.splits sum.splits)

lemma run_interpolation_stored:
  "run_interpolation env i im c d x s = (Inr v, s') \<Longrightarrow>
   map_of (cache s') (i, im, c, d, x) = Some v"
  by (auto simp add: run_interpolation_def Let_def split: option.splits sum.splits)

lemma run_interpolation_hit:
  "map_of (cache s) (i, im, c, d, x) = Some v \<Longrightarrow>
   fst (run_interpolation env i im c d x s) = Inr v \<and>
   computed (snd (run_interpolation env i im c d x s)) = computed s"
  by (simp add: run_interpolation_def Let_def)

lemma replay_cache_mono:
  "map_of (cache s) k = Some v \<Longrightarrow> map_of (cache (replay env calls s)) k = Some v"
proof (induction calls arbitrary: s)
  case Nil
  then show ?case by simp
next
  case (Cons c calls)
  obtain i im ck d x where c: "c = (i, im, ck, d, x)" by (cases c) auto
  show ?case
    unfolding c replay.simps
    by (rule Cons.IH) (rule run_interpolation_cache_mono [OF Cons.prems])
qed

lemma render_loop_eq: "render_loop env k pa pb im d x alphas s = prepare_loop env k pa pb im d x alphas s"
  by (induction alphas arbitrary: s) (simp_all add: Let_def split: prod.splits sum.splits)

lemma prepare_loop_requested:
  "\<exists>m\<le>length alphas.
     requested (snd (prepare_loop env k pa pb im d x alphas s)) =
       requested s @ map (step_call env k pa pb im d x) (take m alphas) \<and>
     (\<not> isl (fst (prepare_loop env k pa pb im d x alphas s)) \<longrightarrow> m = length alphas)"
proof (induction alphas arbitrary: s)
  case Nil
  then show ?case by simp
next
  case (Cons a alphas)
  let ?i = "\<lparr>alpha = a, num_inference_steps = k, seed_image_id = ''og_beat'', start = pa, endp = pb\<rparr>"
  obtain r s1 where run: "run_interpolation env ?i im (DEFAULT_CHECKPOINT env) d x s = (r, s1)"
    by (cases "run_interpolation env ?i im (DEFAULT_CHECKPOINT env) d x s")
  have req1: "requested s1 = requested s @ [step_call env k pa pb im d x a]"
    using run_interpolation_requested [of env ?i im "DEFAULT_CHECKPOINT env" d x s] run
    by (simp add: step_call_def)
  show ?case
  proof (cases r)
    case (Inl e)
    have "requested (snd (prepare_loop env k pa pb im d x (a # alphas) s)) =
            requested s @ map (step_call env k pa pb im d x) (take 1 (a # alphas))"
      using run Inl req1 by (simp add: Let_def)
    moreover have "isl (fst (prepare_loop env k pa pb im d x (a # alphas) s))"
      using run Inl by (simp add: Let_def)
    ultimately show ?thesis
      by (intro exI [of _ 1]) simp
  next
    case (Inr v)
    obtain m where m: "m \<le> length alphas"
      "requested (snd (prepare_loop env k pa pb im d x alphas s1)) =
         requested s1 @ map (step_call env k pa pb im d x) (take m alphas)"
      "\<not> isl (fst (prepare_loop env k pa pb im d x alphas s1)) \<longrightarrow> m = length alphas"
      using Cons.IH [of s1] by blast
    have snd_eq: "snd (prepare_loop env k pa pb im d x (a # alphas) s) =
                  snd (prepare_loop env k pa pb im d x alphas s1)"
      using run Inr by (simp add: Let_def split: prod.splits sum.splits)
    have isl_eq: "isl (fst (prepare_loop env k pa pb im d x (a # alphas) s)) =
                  isl (fst (prepare_loop env k pa pb im d x alphas s1))"
      using run Inr by (simp add: Let_def split: prod.splits sum.splits)
    show ?thesis
      using m req1 snd_eq isl_eq by (intro exI [of _ "Suc m"]) simp
  qed
qed

lemma prepare_loop_cache_mono:
  "map_of (cache s) c = Some v \<Longrightarrow>
   map_of (cache (snd (prepare_loop env k pa pb im d x alphas s))) c = Some v"
proof (induction alphas arbitrary: s)
  case Nil
  then show ?case by simp
next
  case (Cons a alphas)
  let ?i = "\<lparr>alpha = a, num_inference_steps = k, seed_image_id = ''og_beat'', start = pa, endp = pb\<rparr>"
  obtain r s1 where run: "run_interpolation env ?i im (DEFAULT_CHECKPOINT env) d x s = (r, s1)"
    by (cases "run_interpolation env ?i im (DEFAULT_CHECKPOINT env) d x s")
  have s1: "map_of (cache s1) c = Some v"
    using run_interpolation_cache_mono [OF Cons.prems, of env ?i im "DEFAULT_CHECKPOINT env" d x] run
    by simp
  show ?case
  proof (cases r)
    case (Inl e)
    then show ?thesis using run s1 by (simp add: Let_def)
  next
    case (Inr v')
    have "snd (prepare_loop env k pa pb im d x (a # alphas) s) =
          snd (prepare_loop env k pa pb im d x alphas s1)"
      using run Inr by (simp add: Let_def split: prod.splits sum.splits)
    then show ?thesis using Cons.IH [OF s1] by simp
  qed
qed

lemma prepare_loop_results:
  "prepare_loop env k pa pb im d x alphas s = (Inr (imgs, auds), s') \<Longrightarrow>
   length imgs = length alphas \<and> length auds = length alphas \<and>
   list_all2 (\<lambda>a r. map_of (cache s') (step_call env k pa pb im d x a) = Some r)
     alphas (zip imgs auds)"
proof (induction alphas arbitrary: s imgs auds)
  case Nil
  then show ?case by simp
next
  case (Cons a alphas)
  let ?i = "\<lparr>alpha = a, num_inference_steps = k, seed_image_id = ''og_beat'', start = pa, endp = pb\<rparr>"
  obtain r s1 where run: "run_interpolation env ?i im (DEFAULT_CHECKPOINT env) d x s = (r, s1)"
    by (cases "run_interpolation env ?i im (DEFAULT_CHECKPOINT env) d x s")
  from Cons.prems run obtain img aud imgs' auds' where
    r: "r = Inr (img, aud)" and
    rest: "prepare_loop env k pa pb im d x alphas s1 = (Inr (imgs', auds'), s')" and
    lists: "imgs = img # imgs'" "auds = aud # auds'"
    by (auto simp add: Let_def split: prod.splits sum.splits)
  have stored: "map_of (cache s1) (step_call env k pa pb im d x a) = Some (img, aud)"
    using run_interpolation_stored [of env ?i im "DEFAULT_CHECKPOINT env" d x s "(img, aud)" s1] run r
    by (simp add: step_call_def)
  have "map_of (cache s') (step_call env k pa pb im d x a) = Some (img, aud)"
    using prepare_loop_cache_mono [OF stored, of env k pa pb im d x alphas] rest by simp
  then show ?case
    using Cons.IH [OF rest] lists by simp
qed

lemma run_interpolation_succeeds:
  assumes "collaborators_succeed env"
  shows "\<not> isl (fst (run_interpolation env i im c d x s))"
proof -
  have "\<not> isl (run_interpolation_body env i im c d x)"
    using assms
    by (auto simp add: collaborators_succeed_def run_interpolation_body_def Let_def isl_def
        split: sum.splits)
  then show ?thesis
    by (auto simp add: run_interpolation_def Let_def split: option.splits sum.splits)
qed

lemma prepare_loop_succeeds:
  assumes "collaborators_succeed env"
  shows "\<not> isl (fst (prepare_loop env k pa pb im d x alphas s))"
proof (induction alphas arbitrary: s)
  case Nil
  then show ?case by simp
next
  case (Cons a alphas)
  let ?i = "\<lparr>alpha = a, num_inference_steps = k, seed_image_id = ''og_beat'', start = pa, endp = pb\<rparr>"
  obtain r s1 where run: "run_interpolation env ?i im (DEFAULT_CHECKPOINT env) d x s = (r, s1)"
    by (cases "run_interpolation env ?i im (DEFAULT_CHECKPOINT env) d x s")
  obtain v where r: "r = Inr v"
    using run_interpolation_succeeds [OF assms, of ?i im "DEFAULT_CHECKPOINT env" d x s] run
    by (cases r) auto
  show ?case
    using run r Cons.IH [of s1]
    by (auto simp add: Let_def split: prod.splits sum.splits)
qed

lemma linspace_length:
  "0 \<le> n \<Longrightarrow> \<exists>xs. linspace a b n = Inr xs \<and> length xs = nat n"
  by (auto simp add: linspace_def Let_def)

lemma linspace_negative:
  "n < 0 \<Longrightarrow> linspace a b n = Inl (ValueError ''Number of samples must be non-negative.'')"
  by (simp add: linspace_def)

lemma prepare_alphas_length:
  "0 \<le> n \<Longrightarrow> \<exists>ys. prepare_alphas libm n p = Inr ys \<and> length ys = nat n"
  using linspace_length [of n "Fin 0" "Fin 1"]
  by (auto simp add: prepare_alphas_def Let_def)

lemma prepare_alphas_negative:
  "n < 0 \<Longrightarrow> prepare_alphas libm n p = Inl (ValueError ''Number of samples must be non-negative.'')"
  by (simp add: prepare_alphas_def linspace_negative)

lemma foldl_append_crossfade0:
  "foldl (\<lambda>concat_segment segment. append_crossfade0 concat_segment segment) seg segs =
   seg @ concat segs"
  by (induction segs arbitrary: seg) (simp_all add: append_crossfade0_def)

lemma prepare_concat_Inr:
  "prepare_concat segs = Inr c \<longleftrightarrow> segs \<noteq> [] \<and> c = concat segs"
  by (cases segs) (auto simp add: prepare_concat_def foldl_append_crossfade0)

lemma decode_all_Inr:
  "decode_all env bs = Inr segs \<Longrightarrow> list_all2 (\<lambda>b seg. from_file env b = Inr seg) bs segs"
  by (induction bs arbitrary: segs) (auto split: sum.splits)

lemma decode_all_succeeds:
  "\<forall>b. \<not> isl (from_file env b) \<Longrightarrow> \<exists>segs. decode_all env bs = Inr segs \<and> length segs = length bs"
proof (induction bs)
  case Nil
  then show ?case by simp
next
  case (Cons b bs)
  then obtain segs where "decode_all env bs = Inr segs" "length segs = length bs" by blast
  moreover obtain seg where "from_file env b = Inr seg"
    using Cons.prems by (cases "from_file env b") (auto simp add: isl_def)
  ultimately show ?case by simp
qed

lemma length_concat_sum: "length (concat segs) = sum_list (map length segs)"
  by (induction segs) simp_all

lemma prepare_final_audio_Inr:
  "prepare_final_audio env ext auds = Inr buf \<Longrightarrow>
   \<exists>segs. decode_all env auds = Inr segs \<and> segs \<noteq> [] \<and>
     export env (concat segs) ext = Inr (getvalue buf) \<and> tell buf = 0"
  by (auto simp add: prepare_final_audio_def prepare_concat_Inr Let_def split: sum.splits)

lemma prepare_final_audio_succeeds:
  assumes "collaborators_succeed env" "auds \<noteq> []"
  shows "\<not> isl (prepare_final_audio env ext auds)"
proof -
  obtain segs where segs: "decode_all env auds = Inr segs" "length segs = length auds"
    using decode_all_succeeds [of env auds] assms(1) by (auto simp add: collaborators_succeed_def)
  then have "segs \<noteq> []" using assms(2) by auto
  then obtain c where c: "prepare_concat segs = Inr c" by (simp add: prepare_concat_Inr)
  obtain w where "export env c ext = Inr w"
    using assms(1) by (cases "export env c ext") (auto simp add: collaborators_succeed_def isl_def)
  then show ?thesis using segs c by (simp add: prepare_final_audio_def Let_def)
qed

lemma prepare_interpolation_calls:
  "\<exists>calls.
     requested (snd (prepare_interpolation env ext n k g name file p so si pa pb s)) =
       requested s @ calls \<and>
     list_all (\<lambda>c. seed_image_id (fst c) = ''og_beat'') calls \<and>
     (\<not> isl (fst (prepare_interpolation env ext n k g name file p so si pa pb s)) \<longrightarrow>
        Inr (map (alpha \<circ> fst) calls) = prepare_alphas (libm_pow env) n p)"
proof -
  let ?R = "prepare_interpolation env ext n k g name file p so si pa pb s"
  let ?d = "if cuda_is_available env then ''cuda'' else ''cpu''"
  have trivial: "snd ?R = s \<and> isl (fst ?R) \<Longrightarrow> ?thesis"
    by (intro exI [of _ "[]"]) simp
  show ?thesis
  proof (cases pa)
    case None
    then show ?thesis by (intro trivial) (simp add: prepare_interpolation_def)
  next
    case a: (Some a)
    show ?thesis
    proof (cases pb)
      case None
      then show ?thesis using a by (intro trivial) (simp add: prepare_interpolation_def)
    next
      case b: (Some b)
      show ?thesis
      proof (cases "prepare_init_image env name file")
        case (Inl e)
        then show ?thesis using a b by (intro trivial) (simp add: prepare_interpolation_def)
      next
        case im: (Inr im)
        show ?thesis
        proof (cases "prepare_alphas (libm_pow env) n p")
          case (Inl e)
          then show ?thesis using a b im by (intro trivial) (simp add: prepare_interpolation_def)
        next
          case al: (Inr alphas)
          let ?L = "prepare_loop env k a b im ?d ext alphas s"
          obtain m where m: "m \<le> length alphas"
            "requested (snd ?L) = requested s @ map (step_call env k a b im ?d ext) (take m alphas)"
            "\<not> isl (fst ?L) \<longrightarrow> m = length alphas"
            using prepare_loop_requested [of alphas env k a b im ?d ext s] by blast
          have snd_R: "snd ?R = snd ?L"
            using a b im al
            by (simp add: prepare_interpolation_def Let_def split: prod.splits sum.splits)
          have isl_R: "\<not> isl (fst ?R) \<Longrightarrow> \<not> isl (fst ?L)"
            using a b im al
            by (auto simp add: prepare_interpolation_def Let_def split: prod.splits sum.splits)
          let ?calls = "map (step_call env k a b im ?d ext) (take m alphas)"
          have "list_all (\<lambda>c. seed_image_id (fst c) = ''og_beat'') ?calls"
            by (simp add: list_all_iff step_call_def)
          moreover have "\<not> isl (fst ?R) \<longrightarrow> map (alpha \<circ> fst) ?calls = alphas"
            using m(3) isl_R by (auto simp add: step_call_def comp_def)
          ultimately show ?thesis
            using m(2) snd_R al by (intro exI [of _ ?calls]) auto
        qed
      qed
    qed
  qed
qed

lemma render_calls:
  "\<exists>calls.
     requested (snd (render env dev ext n k g name file p so si wa wb s)) = requested s @ calls \<and>
     list_all (\<lambda>c. seed_image_id (fst c) = ''og_beat'') calls \<and>
     ((\<exists>buf nm. fst (render env dev ext n k g name file p so si wa wb s) = Inr (FinalOutput buf nm)) \<longrightarrow>
        Inr (map (alpha \<circ> fst) calls) = render_alphas (libm_pow env) n p)"
proof -
  let ?R = "render env dev ext n k g name file p so si wa wb s"
  let ?a = "\<lparr>prompt = prompt_widget wa, seed = seed_widget wa, negative_prompt = None,
             denoising = denoising_widget wa, guidance = g\<rparr>"
  let ?b = "\<lparr>prompt = prompt_widget wb, seed = seed_widget wb, negative_prompt = None,
             denoising = denoising_widget wb, guidance = g\<rparr>"
  have trivial: "snd ?R = s \<and> (\<forall>buf nm. fst ?R \<noteq> Inr (FinalOutput buf nm)) \<Longrightarrow> ?thesis"
    by (intro exI [of _ "[]"]) simp
  show ?thesis
  proof (cases "render_alphas (libm_pow env) n p")
    case (Inl e)
    then show ?thesis by (intro trivial) (simp add: render_def)
  next
    case al: (Inr alphas)
    show ?thesis
    proof (cases "prompt_widget wa = [] \<or> prompt_widget wb = []")
      case True
      then show ?thesis using al by (intro trivial) (auto simp add: render_def Let_def)
    next
      case filled: False
      show ?thesis
      proof (cases "render_init_image env name file")
        case (Inl e)
        then show ?thesis using al filled by (intro trivial) (simp add: render_def Let_def)
      next
        case (Inr opt)
        show ?thesis
        proof (cases opt)
          case None
          then show ?thesis using al filled Inr by (intro trivial) (simp add: render_def Let_def)
        next
          case (Some im)
          let ?L = "prepare_loop env k ?a ?b im dev ext alphas s"
          obtain m where m: "m \<le> length alphas"
            "requested (snd ?L) = requested s @ map (step_call env k ?a ?b im dev ext) (take m alphas)"
            "\<not> isl (fst ?L) \<longrightarrow> m = length alphas"
            using prepare_loop_requested [of alphas env k ?a ?b im dev ext s] by blast
          have snd_R: "snd ?R = snd ?L"
            using al filled Inr Some
            by (simp add: render_def render_loop_eq Let_def split: prod.splits sum.splits)
          have isl_R: "\<exists>buf nm. fst ?R = Inr (FinalOutput buf nm) \<Longrightarrow> \<not> isl (fst ?L)"
            using al filled Inr Some
            by (auto simp add: render_def render_loop_eq Let_def split: prod.splits sum.splits)
          let ?calls = "map (step_call env k ?a ?b im dev ext) (take m alphas)"
          have "list_all (\<lambda>c. seed_image_id (fst c) = ''og_beat'') ?calls"
            by (simp add: list_all_iff step_call_def)
          moreover have "(\<exists>buf nm. fst ?R = Inr (FinalOutput buf nm)) \<longrightarrow> map (alpha \<circ> fst) ?calls = alphas"
            using m(3) isl_R by (auto simp add: step_call_def comp_def)
          ultimately show ?thesis
            using m(2) snd_R al by (intro exI [of _ ?calls]) auto
        qed
      qed
    qed
  qed
qed

lemma prepare_interpolation_runs:
  assumes im: "prepare_init_image env name file = Inr im"
    and n: "1 \<le> n"
    and ok: "collaborators_succeed env"
  shows "\<not> isl (fst (prepare_interpolation env ext n k g name file p so si (Some a) (Some b) s)) \<and>
         length (requested (snd (prepare_interpolation env ext n k g name file p so si (Some a) (Some b) s))) =
           length (requested s) + nat n"
proof -
  let ?R = "prepare_interpolation env ext n k g name file p so si (Some a) (Some b) s"
  let ?d = "if cuda_is_available env then ''cuda'' else ''cpu''"
  obtain alphas where al: "prepare_alphas (libm_pow env) n p = Inr alphas" "length alphas = nat n"
    using prepare_alphas_length [of n "libm_pow env" p] n by auto
  let ?L = "prepare_loop env k a b im ?d ext alphas s"
  have Lok: "\<not> isl (fst ?L)" by (rule prepare_loop_succeeds [OF ok])
  then obtain imgs auds s' where L: "?L = (Inr (imgs, auds), s')"
    by (cases ?L; cases "fst ?L") auto
  have len: "length auds = length alphas"
    using prepare_loop_results [OF L] by simp
  then have "auds \<noteq> []" using al(2) n by auto
  then have fin: "\<not> isl (prepare_final_audio env ext auds)"
    by (rule prepare_final_audio_succeeds [OF ok])
  have R: "?R = (prepare_final_audio env ext auds, s')"
    using im al(1) L by (simp add: prepare_interpolation_def Let_def)
  obtain m where m: "requested (snd ?L) = requested s @ map (step_call env k a b im ?d ext) (take m alphas)"
    "\<not> isl (fst ?L) \<longrightarrow> m = length alphas"
    using prepare_loop_requested [of alphas env k a b im ?d ext s] by blast
  have "length (requested s') = length (requested s) + nat n"
    using m Lok L al(2) by simp
  then show ?thesis using R fin by simp
qed

lemma prepare_interpolation_zero_steps:
  assumes im: "prepare_init_image env name file = Inr im"
  shows "prepare_interpolation env ext 0 k g name file p so si (Some a) (Some b) s =
           (Inl (IndexError ''list index out of range''), s)"
proof -
  have "prepare_alphas (libm_pow env) 0 p = Inr []"
    by (simp add: prepare_alphas_def linspace_def Let_def)
  then show ?thesis
    using im by (simp add: prepare_interpolation_def prepare_final_audio_def prepare_concat_def)
qed

lemma prepare_interpolation_negative_steps:
  assumes im: "prepare_init_image env name file = Inr im" and n: "n < 0"
  shows "prepare_interpolation env ext n k g name file p so si (Some a) (Some b) s =
           (Inl (ValueError ''Number of samples must be non-negative.''), s)"
  using im prepare_alphas_negative [OF n, of "libm_pow env" p]
  by (simp add: prepare_interpolation_def)

lemma prepare_interpolation_Inr:
  assumes "prepare_interpolation env ext n k g name file p so si pa pb s = (Inr buf, s')"
  shows "\<exists>a b im alphas imgs auds segs.
     pa = Some a \<and> pb = Some b \<and>
     prepare_init_image env name file = Inr im \<and>
     prepare_alphas (libm_pow env) n p = Inr alphas \<and>
     length auds = length alphas \<and> length imgs = length alphas \<and>
     list_all2 (\<lambda>al r. map_of (cache s')
         (step_call env k a b im (if cuda_is_available env then ''cuda'' else ''cpu'') ext al) = Some r)
       alphas (zip imgs auds) \<and>
     list_all2 (\<lambda>b seg. from_file env b = Inr seg) auds segs \<and>
     export env (concat segs) ext = Inr (getvalue buf) \<and> tell buf = 0"
proof -
  let ?d = "if cuda_is_available env then ''cuda'' else ''cpu''"
  from assms obtain a b where ab: "pa = Some a" "pb = Some b"
    by (cases pa; cases pb) (auto simp add: prepare_interpolation_def)
  from assms ab obtain im where im: "prepare_init_image env name file = Inr im"
    by (cases "prepare_init_image env name file") (auto simp add: prepare_interpolation_def)
  from assms ab im obtain alphas where al: "prepare_alphas (libm_pow env) n p = Inr alphas"
    by (cases "prepare_alphas (libm_pow env) n p") (auto simp add: prepare_interpolation_def)
  from assms ab im al obtain imgs auds where
    L: "prepare_loop env k a b im ?d ext alphas s = (Inr (imgs, auds), s')" and
    F: "prepare_final_audio env ext auds = Inr buf"
    by (auto simp add: prepare_interpolation_def Let_def split: prod.splits sum.splits)
  from prepare_final_audio_Inr [OF F] obtain segs where
    segs: "decode_all env auds = Inr segs" "export env (concat segs) ext = Inr (getvalue buf)" "tell buf = 0"
    by blast
  show ?thesis
    using ab im al prepare_loop_results [OF L] decode_all_Inr [OF segs(1)] segs(2,3)
    by (intro exI [of _ a] exI [of _ b] exI [of _ im] exI [of _ alphas] exI [of _ imgs]
        exI [of _ auds] exI [of _ segs]) simp
qed

section \<open>Running the test double\<close>

lemma mock_env_succeeds: "collaborators_succeed mock_env"
  by (simp add: collaborators_succeed_def mock_env_def)

lemma correctly_rounded_pow_unit:
  "\<forall>a b. 0 < a \<and> a < 1 \<and> 0 < b \<longrightarrow> in_unit (correctly_rounded_pow a b)"
proof (intro allI impI)
  fix a b :: real
  assume "0 < a \<and> a < 1 \<and> 0 < b"
  then have "0 \<le> a powr b" "a powr b \<le> 1" by (simp_all add: powr_le1)
  then obtain r where "rnd (a powr b) = Fin r" "0 \<le> r" "r \<le> 1"
    using rnd_unit [of "a powr b"] by blast
  then show "in_unit (correctly_rounded_pow a b)" by (simp add: correctly_rounded_pow_def)
qed

lemmas run_eval = prepare_interpolation_def prepare_init_image_def mock_env_def prepare_alphas_def
  linspace_def fl_sub_def np_power_def run_interpolation_def run_interpolation_body_def
  prepare_final_audio_def prepare_concat_def append_crossfade0_def empty_session_def
  church_bells_def jazz_def upt_conv_Cons fl_eval

lemmas render_eval = render_def render_init_image_def mock_env_def render_alphas_def
  linspace_def fl_sub_def np_power_def run_interpolation_def run_interpolation_body_def
  render_final_audio_def render_concat_def append_crossfade0_def empty_session_def
  replace_space_def upt_conv_Cons fl_eval

section \<open>The claims\<close>

text \<open>
  C1, as amended. With exponent 1 and a step count from 1 to 20, the schedule has as many
  entries as steps and every entry is within \<open>2\<^sup>-\<^sup>5\<^sup>5\<close> of the entry of the linear space at
  the same place: the power is the identity, and what separates the two is the rounding of
  \<^verbatim>\<open>alphas * 2 - 1\<close>. For three steps the schedule is exactly \<open>0\<close>, \<open>1/2\<close>, \<open>1\<close>.
\<close>

theorem identity_curve_within_rounding:
  assumes "1 \<le> n" and "n \<le> 20"
  shows "\<exists>xs ys. linspace (Fin 0) (Fin 1) n = Inr xs \<and>
           prepare_alphas libm n (Fin 1) = Inr ys \<and>
           length ys = nat n \<and>
           list_all2 (close_to (1 / 2 ^ 55)) xs ys \<and>
           prepare_alphas libm 3 (Fin 1) = Inr [Fin 0, Fin (1 / 2), Fin 1]"
proof -
  have ok: "linear_ok libm n" using assms by (rule linear_ok_table)
  then obtain xs where xs: "linspace (Fin 0) (Fin 1) n = Inr xs"
    "list_all2 (close_to (1 / 2 ^ 55)) xs (map (coefficient libm (Fin 1)) xs)"
    by (auto simp add: linear_ok_def split: sum.splits)
  have len: "length xs = nat n"
    using linspace_length [of n "Fin 0" "Fin 1"] assms(1) xs(1) by auto
  have three: "prepare_alphas libm 3 (Fin 1) = Inr [Fin 0, Fin (1 / 2), Fin 1]"
    by (simp add: prepare_alphas_def linspace_def fl_sub_def np_power_one upt_conv_Cons fl_eval)
  show ?thesis
    using xs len three by (simp add: prepare_alphas_map)
qed

theorem identity_curve_within_rounding_witness:
  "\<exists>xs ys. linspace (Fin 0) (Fin 1) 7 = Inr xs \<and>
     prepare_alphas correctly_rounded_pow 7 (Fin 1) = Inr ys \<and>
     length ys = 7 \<and>
     list_all2 (close_to (1 / 2 ^ 55)) xs ys \<and>
     prepare_alphas correctly_rounded_pow 3 (Fin 1) = Inr [Fin 0, Fin (1 / 2), Fin 1]"
  using identity_curve_within_rounding [of 7 correctly_rounded_pow] by simp

text \<open>
  C1 as stated fails at seven steps: the second entry of the linear space is the double
  nearest to \<open>1/6\<close>, and the second entry of the schedule is the double below it.
\<close>

theorem identity_curve_exact_counterexample:
  "linspace (Fin 0) (Fin 1) 7 =
     Inr [Fin 0, Fin (6004799503160661 / 36028797018963968),
          Fin (6004799503160661 / 18014398509481984), Fin (1 / 2),
          Fin (6004799503160661 / 9007199254740992),
          Fin (3752999689475413 / 4503599627370496), Fin 1] \<and>
   prepare_alphas correctly_rounded_pow 7 (Fin 1) =
     Inr [Fin 0, Fin (1501199875790165 / 9007199254740992),
          Fin (6004799503160661 / 18014398509481984), Fin (1 / 2),
          Fin (6004799503160661 / 9007199254740992),
          Fin (3752999689475413 / 4503599627370496), Fin 1] \<and>
   prepare_alphas correctly_rounded_pow 7 (Fin 1) \<noteq> linspace (Fin 0) (Fin 1) 7"
  by (simp add: prepare_alphas_def linspace_def fl_sub_def np_power_one upt_conv_Cons fl_eval)

text \<open>
  C2, as amended. For two steps or more, whatever the exponent and whatever the C library
  computes, the schedule has as many entries as steps, its first entry is 0 and its last
  entry is 1. For a single step the schedule is the single entry 0.
\<close>

theorem schedule_endpoints:
  "(2 \<le> n \<longrightarrow>
      (\<exists>ys. prepare_alphas libm n p = Inr ys \<and> length ys = nat n \<and>
         hd ys = Fin 0 \<and> last ys = Fin 1)) \<and>
   prepare_alphas libm 1 p = Inr [Fin 0]"
  using prepare_alphas_ends [of n libm p] prepare_alphas_single [of libm p] by blast

theorem schedule_endpoints_witness:
  "(2::int) \<le> 20 \<and>
   (\<exists>ys. prepare_alphas correctly_rounded_pow 20 (Fin 2) = Inr ys \<and> length ys = 20 \<and>
      hd ys = Fin 0 \<and> last ys = Fin 1) \<and>
   prepare_alphas correctly_rounded_pow 1 (Fin 2) = Inr [Fin 0]"
  using schedule_endpoints [of 20 correctly_rounded_pow "Fin 2"] by simp

text \<open>
  C2 as stated fails for a single step with exponent 2: the only entry is 0, so the last
  entry is not 1.
\<close>

theorem single_step_last_counterexample:
  "prepare_alphas correctly_rounded_pow 1 (Fin 2) = Inr [Fin 0] \<and>
   last [Fin 0 :: float64] \<noteq> Fin 1"
  by (simp add: prepare_alphas_single)

text \<open>
  C3. The calls of \<^verbatim>\<open>run_interpolation\<close> that one run of \<^verbatim>\<open>prepare_interpolation\<close> adds to
  the log all carry \<^verbatim>\<open>seed_image_id = "og_beat"\<close>, whatever seed image was selected, and
  when the run returns they are the calls for the coefficients of the schedule, in the
  order of the schedule. The same holds of \<^verbatim>\<open>render\<close> when it reaches its final output.
\<close>

theorem seed_image_id_hardcoded:
  "(\<exists>calls.
      requested (snd (prepare_interpolation env ext n k g name sf p so si pa pb s)) =
        requested s @ calls \<and>
      list_all (\<lambda>c. seed_image_id (fst c) = ''og_beat'') calls \<and>
      (\<not> isl (fst (prepare_interpolation env ext n k g name sf p so si pa pb s)) \<longrightarrow>
         Inr (map (alpha \<circ> fst) calls) = prepare_alphas (libm_pow env) n p)) \<and>
   (\<exists>calls.
      requested (snd (render env dev ext n k g name upload p so si wa wb s)) =
        requested s @ calls \<and>
      list_all (\<lambda>c. seed_image_id (fst c) = ''og_beat'') calls \<and>
      ((\<exists>buf nm. fst (render env dev ext n k g name upload p so si wa wb s) =
           Inr (FinalOutput buf nm)) \<longrightarrow>
         Inr (map (alpha \<circ> fst) calls) = render_alphas (libm_pow env) n p))"
  using prepare_interpolation_calls [of env ext n k g name sf p so si pa pb s]
    render_calls [of env dev ext n k g name upload p so si wa wb s]
  by blast

theorem seed_image_id_hardcoded_witness:
  "(\<exists>calls.
      requested (snd (prepare_interpolation mock_env ''wav'' 3 50 (Fin 7) ''custom''
          (Some (Decoded 9)) (Fin 1) False False (Some church_bells) (Some jazz)
          empty_session)) = calls \<and>
      list_all (\<lambda>c. seed_image_id (fst c) = ''og_beat'') calls \<and>
      Inr (map (alpha \<circ> fst) calls) = prepare_alphas correctly_rounded_pow 3 (Fin 1)) \<and>
   (\<exists>calls.
      requested (snd (render mock_env ''cpu'' ''wav'' 3 50 (Fin 7) ''custom''
          (Some \<lparr>getvalue = ''png'', tell = 0\<rparr>) (Fin 1) False False
          \<lparr>prompt_widget = ''church bells'', seed_widget = 42, denoising_widget = Fin (3 / 4)\<rparr>
          \<lparr>prompt_widget = ''jazz'', seed_widget = 42, denoising_widget = Fin (3 / 4)\<rparr>
          empty_session)) = calls \<and>
      list_all (\<lambda>c. seed_image_id (fst c) = ''og_beat'') calls \<and>
      Inr (map (alpha \<circ> fst) calls) = render_alphas correctly_rounded_pow 3 (Fin 1))"
proof -
  have run: "\<not> isl (fst (prepare_interpolation mock_env ''wav'' 3 50 (Fin 7) ''custom''
          (Some (Decoded 9)) (Fin 1) False False (Some church_bells) (Some jazz)
          empty_session))"
    by (simp add: run_eval)
  have page: "fst (render mock_env ''cpu'' ''wav'' 3 50 (Fin 7) ''custom''
          (Some \<lparr>getvalue = ''png'', tell = 0\<rparr>) (Fin 1) False False
          \<lparr>prompt_widget = ''church bells'', seed_widget = 42, denoising_widget = Fin (3 / 4)\<rparr>
          \<lparr>prompt_widget = ''jazz'', seed_widget = 42, denoising_widget = Fin (3 / 4)\<rparr>
          empty_session) =
        Inr (FinalOutput \<lparr>getvalue = ''xxxxxx'', tell = 0\<rparr> ''church_bells_jazz.wav'')"
    by (simp add: render_eval)
  have pow: "libm_pow mock_env = correctly_rounded_pow" by (simp add: mock_env_def)
  have req: "requested (empty_session :: nat session) = []" by (simp add: empty_session_def)
  show ?thesis
    using seed_image_id_hardcoded [of mock_env "''wav''" 3 50 "Fin 7" "''custom''"
        "Some (Decoded 9)" "Fin 1" False False "Some church_bells" "Some jazz" empty_session
        "''cpu''" "Some \<lparr>getvalue = ''png'', tell = 0\<rparr>"
        "\<lparr>prompt_widget = ''church bells'', seed_widget = 42, denoising_widget = Fin (3 / 4)\<rparr>"
        "\<lparr>prompt_widget = ''jazz'', seed_widget = 42, denoising_widget = Fin (3 / 4)\<rparr>"]
      run page
    unfolding pow req by simp
qed

text \<open>
  C4, as amended. When either prompt is missing (\<^verbatim>\<open>None\<close>), \<^verbatim>\<open>prepare_interpolation\<close> raises
  the \<^verbatim>\<open>ValueError\<close> "Both prompts ... must be provided" and leaves the session as it was:
  no inference call has been made. When both prompts are given, the seed image is
  \<^verbatim>\<open>custom\<close> and no file is supplied, it raises the \<^verbatim>\<open>ValueError\<close> "Custom seed image file
  must be provided", again with no inference call.
\<close>

theorem missing_input_rejected_before_inference:
  "(pa = None \<or> pb = None \<longrightarrow>
      prepare_interpolation env ext n k g name sf p so si pa pb s =
        (Inl (ValueError
           ''Both prompts (prompt_a and prompt_b) must be provided for interpolation.''), s)) \<and>
   prepare_interpolation env ext n k g ''custom'' None p so si (Some a) (Some b) s =
     (Inl (ValueError ''Custom seed image file must be provided when using 'custom'.''), s)"
  by (auto simp add: prepare_interpolation_def prepare_init_image_def split: option.splits)

theorem missing_input_rejected_before_inference_witness:
  "prepare_interpolation mock_env ''wav'' 3 50 (Fin 7) ''og_beat'' None (Fin 1) False False
     None (Some jazz) empty_session =
     (Inl (ValueError
        ''Both prompts (prompt_a and prompt_b) must be provided for interpolation.''),
      empty_session) \<and>
   prepare_interpolation mock_env ''wav'' 3 50 (Fin 7) ''custom'' None (Fin 1) False False
     (Some church_bells) (Some jazz) empty_session =
     (Inl (ValueError ''Custom seed image file must be provided when using 'custom'.''),
      empty_session)"
  using missing_input_rejected_before_inference [of None "Some jazz" mock_env "''wav''" 3 50
      "Fin 7" "''og_beat''" None "Fin 1" False False empty_session church_bells jazz]
  by simp

text \<open>
  C4 as stated fails for a prompt whose text is empty: the check is on the prompt object,
  not on its text, so the run goes on, calls the inference once for its single step and
  returns the audio.
\<close>

theorem blank_prompt_text_counterexample:
  "fst (prepare_interpolation mock_env ''wav'' 1 50 (Fin 7) ''og_beat'' None (Fin 1) False False
     (Some (church_bells\<lparr>prompt := ''''\<rparr>)) (Some jazz) empty_session) =
     Inr \<lparr>getvalue = ''x'', tell = 0\<rparr> \<and>
   length (requested (snd (prepare_interpolation mock_env ''wav'' 1 50 (Fin 7) ''og_beat'' None
     (Fin 1) False False (Some (church_bells\<lparr>prompt := ''''\<rparr>)) (Some jazz)
     empty_session))) = 1"
  by (simp add: run_eval)

text \<open>
  C5, as amended. \<^verbatim>\<open>prepare_interpolation\<close> checks neither the step count against 20 nor the
  exponent. With both prompts given and a seed image that loads: for every step count of
  at least 1 and every exponent, if no collaborator raises then the run returns its audio
  after exactly as many inference calls as steps; a step count of 0 makes no inference call
  and ends in the \<^verbatim>\<open>IndexError\<close> of \<^verbatim>\<open>audio_segments[0]\<close>; a negative step count makes no
  inference call and ends in the \<^verbatim>\<open>ValueError\<close> of \<^verbatim>\<open>np.linspace\<close>.
\<close>

theorem schedule_config_not_validated:
  assumes "prepare_init_image env name sf = Inr im"
  shows "(1 \<le> n \<and> collaborators_succeed env \<longrightarrow>
           \<not> isl (fst (prepare_interpolation env ext n k g name sf p so si (Some a) (Some b) s)) \<and>
           length (requested
             (snd (prepare_interpolation env ext n k g name sf p so si (Some a) (Some b) s))) =
             length (requested s) + nat n) \<and>
         (n = 0 \<longrightarrow>
           prepare_interpolation env ext n k g name sf p so si (Some a) (Some b) s =
             (Inl (IndexError ''list index out of range''), s)) \<and>
         (n < 0 \<longrightarrow>
           prepare_interpolation env ext n k g name sf p so si (Some a) (Some b) s =
             (Inl (ValueError ''Number of samples must be non-negative.''), s))"
  using prepare_interpolation_runs [OF assms, of n ext k g p so si a b s]
    prepare_interpolation_zero_steps [OF assms, of ext k g p so si a b s]
    prepare_interpolation_negative_steps [OF assms, of n ext k g p so si a b s]
  by blast

theorem schedule_config_not_validated_witness:
  "\<not> isl (fst (prepare_interpolation mock_env ''wav'' 25 50 (Fin 7) ''og_beat'' None (Fin 0)
       False False (Some church_bells) (Some jazz) empty_session)) \<and>
   length (requested (snd (prepare_interpolation mock_env ''wav'' 25 50 (Fin 7) ''og_beat''
       None (Fin 0) False False (Some church_bells) (Some jazz) empty_session))) = 25 \<and>
   prepare_interpolation mock_env ''wav'' 0 50 (Fin 7) ''og_beat'' None (Fin 0)
       False False (Some church_bells) (Some jazz) empty_session =
     (Inl (IndexError ''list index out of range''), empty_session) \<and>
   prepare_interpolation mock_env ''wav'' (- 1) 50 (Fin 7) ''og_beat'' None (Fin 0)
       False False (Some church_bells) (Some jazz) empty_session =
     (Inl (ValueError ''Number of samples must be non-negative.''), empty_session)"
proof -
  have im: "prepare_init_image mock_env ''og_beat'' None = Inr 7"
    by (simp add: prepare_init_image_def mock_env_def)
  have req: "requested (empty_session :: nat session) = []" by (simp add: empty_session_def)
  show ?thesis
    using schedule_config_not_validated [OF im, of 25 "''wav''" 50 "Fin 7" "Fin 0" False False
        church_bells jazz empty_session]
      schedule_config_not_validated [OF im, of 0 "''wav''" 50 "Fin 7" "Fin 0" False False
        church_bells jazz empty_session]
      schedule_config_not_validated [OF im, of "- 1" "''wav''" 50 "Fin 7" "Fin 0" False False
        church_bells jazz empty_session]
      mock_env_succeeds
    by (simp add: req)
qed

text \<open>
  C5 as stated fails at 21 steps with exponent 1: no error is raised, the inference is
  called 21 times and the audio is returned.
\<close>

theorem twenty_one_steps_counterexample:
  "\<not> isl (fst (prepare_interpolation mock_env ''wav'' 21 50 (Fin 7) ''og_beat'' None (Fin 1)
       False False (Some church_bells) (Some jazz) empty_session)) \<and>
   length (requested (snd (prepare_interpolation mock_env ''wav'' 21 50 (Fin 7) ''og_beat''
       None (Fin 1) False False (Some church_bells) (Some jazz) empty_session))) = 21"
proof -
  have im: "prepare_init_image mock_env ''og_beat'' None = Inr 7"
    by (simp add: prepare_init_image_def mock_env_def)
  have req: "requested (empty_session :: nat session) = []" by (simp add: empty_session_def)
  show ?thesis
    using prepare_interpolation_runs [OF im _ mock_env_succeeds, of 21 "''wav''" 50 "Fin 7"
        "Fin 1" False False church_bells jazz empty_session]
    by (simp add: req)
qed

text \<open>
  C6. When \<^verbatim>\<open>prepare_interpolation\<close> returns a buffer, the per-step audio buffers are those
  the cache holds for the calls of the schedule's coefficients, in the order of the
  schedule; each is decoded; the returned buffer holds the export of their frames laid end
  to end in that order, with its cursor at 0; and the length of that concatenation is the
  sum of the lengths of the segments.
\<close>

theorem final_audio_is_ordered_concatenation:
  assumes "prepare_interpolation env ext n k g name sf p so si (Some a) (Some b) s =
             (Inr buf, s')"
  shows "\<exists>im alphas imgs auds segs.
     prepare_init_image env name sf = Inr im \<and>
     prepare_alphas (libm_pow env) n p = Inr alphas \<and>
     length imgs = length alphas \<and> length auds = length alphas \<and>
     list_all2 (\<lambda>al r. map_of (cache s')
         (step_call env k a b im (if cuda_is_available env then ''cuda'' else ''cpu'') ext al) =
           Some r)
       alphas (zip imgs auds) \<and>
     list_all2 (\<lambda>b seg. from_file env b = Inr seg) auds segs \<and>
     export env (concat segs) ext = Inr (getvalue buf) \<and> tell buf = 0 \<and>
     length (concat segs) = sum_list (map length segs)"
  using prepare_interpolation_Inr [OF assms] length_concat_sum
  by (metis option.inject)

theorem final_audio_is_ordered_concatenation_witness:
  "\<exists>im alphas imgs auds segs.
     prepare_init_image mock_env ''og_beat'' None = Inr im \<and>
     prepare_alphas (libm_pow mock_env) 3 (Fin 1) = Inr alphas \<and>
     length imgs = length alphas \<and> length auds = length alphas \<and>
     list_all2 (\<lambda>al r. map_of
         (cache (snd (prepare_interpolation mock_env ''wav'' 3 50 (Fin 7) ''og_beat'' None
            (Fin 1) False False (Some church_bells) (Some jazz) empty_session)))
         (step_call mock_env 50 church_bells jazz im
            (if cuda_is_available mock_env then ''cuda'' else ''cpu'') ''wav'' al) = Some r)
       alphas (zip imgs auds) \<and>
     list_all2 (\<lambda>b seg. from_file mock_env b = Inr seg) auds segs \<and>
     export mock_env (concat segs) ''wav'' = Inr ''xxxxxx'' \<and>
     length (concat segs) = sum_list (map length segs)"
proof -
  let ?R = "prepare_interpolation mock_env ''wav'' 3 50 (Fin 7) ''og_beat'' None (Fin 1)
      False False (Some church_bells) (Some jazz) empty_session"
  have "fst ?R = Inr \<lparr>getvalue = ''xxxxxx'', tell = 0\<rparr>"
    by (simp add: run_eval)
  then have run: "?R = (Inr \<lparr>getvalue = ''xxxxxx'', tell = 0\<rparr>, snd ?R)"
    by (simp add: prod_eq_iff)
  show ?thesis
    using final_audio_is_ordered_concatenation [OF run] by simp
qed

text \<open>
  C7. For a step count from 1 to 20 and a positive exponent (a positive double or
  \<open>+\<infinity>\<close>), every coefficient of the schedule is a finite double between 0 and 1, provided
  the C library's \<^verbatim>\<open>pow\<close> maps a base strictly between 0 and 1 and a positive exponent
  into the unit interval.
\<close>

theorem schedule_in_unit_interval:
  assumes "1 \<le> n" and "n \<le> 20"
    and "fl_pos p"
    and "\<forall>a b. 0 < a \<and> a < 1 \<and> 0 < b \<longrightarrow> in_unit (libm a b)"
  shows "\<exists>ys. prepare_alphas libm n p = Inr ys \<and> list_all in_unit ys"
proof -
  have "linear_ok libm n" using assms(1,2) by (rule linear_ok_table)
  then obtain xs where xs: "linspace (Fin 0) (Fin 1) n = Inr xs" "list_all in_unit xs"
    by (auto simp add: linear_ok_def split: sum.splits)
  have "list_all in_unit (map (coefficient libm p) xs)"
    using xs(2) coefficient_unit [OF assms(4) assms(3)] by (simp add: list_all_iff)
  then show ?thesis using xs(1) by (simp add: prepare_alphas_map)
qed

theorem schedule_in_unit_interval_witness:
  "\<exists>ys. prepare_alphas correctly_rounded_pow 5 (Fin 2) = Inr ys \<and> list_all in_unit ys"
  using schedule_in_unit_interval [of 5 "Fin 2" correctly_rounded_pow]
    correctly_rounded_pow_unit
  by simp

text \<open>
  C8. Once a call of \<^verbatim>\<open>run_interpolation\<close> has returned a result, every later call with
  the same arguments, whatever calls were made in between, returns that same result and
  does not run the body again.
\<close>

theorem cached_inference_memoizes:
  assumes "\<not> isl (fst (run_interpolation env i im c d x s))"
  shows "fst (run_interpolation env i im c d x
               (replay env calls (snd (run_interpolation env i im c d x s)))) =
           fst (run_interpolation env i im c d x s) \<and>
         computed (snd (run_interpolation env i im c d x
               (replay env calls (snd (run_interpolation env i im c d x s))))) =
           computed (replay env calls (snd (run_interpolation env i im c d x s)))"
proof -
  obtain v where v: "fst (run_interpolation env i im c d x s) = Inr v"
    using assms by (cases "fst (run_interpolation env i im c d x s)") auto
  then have "run_interpolation env i im c d x s =
      (Inr v, snd (run_interpolation env i im c d x s))"
    by (simp add: prod_eq_iff)
  then have "map_of (cache (snd (run_interpolation env i im c d x s))) (i, im, c, d, x) = Some v"
    by (rule run_interpolation_stored)
  then have "map_of (cache (replay env calls (snd (run_interpolation env i im c d x s))))
      (i, im, c, d, x) = Some v"
    by (rule replay_cache_mono)
  then show ?thesis
    using run_interpolation_hit [of "replay env calls (snd (run_interpolation env i im c d x s))"
        i im c d x v env] v
    by simp
qed

theorem cached_inference_memoizes_witness:
  "fst (run_interpolation mock_env
         \<lparr>alpha = Fin (1 / 2), num_inference_steps = 50, seed_image_id = ''og_beat'',
          start = church_bells, endp = jazz\<rparr> 7 ''ckpt'' ''cpu'' ''wav''
         (replay mock_env
            [(\<lparr>alpha = Fin 1, num_inference_steps = 50, seed_image_id = ''og_beat'',
               start = church_bells, endp = jazz\<rparr>, 7, ''ckpt'', ''cpu'', ''wav'')]
            (snd (run_interpolation mock_env
               \<lparr>alpha = Fin (1 / 2), num_inference_steps = 50, seed_image_id = ''og_beat'',
                start = church_bells, endp = jazz\<rparr> 7 ''ckpt'' ''cpu'' ''wav''
               empty_session)))) =
     Inr (2, \<lparr>getvalue = ''aa'', tell = 0\<rparr>) \<and>
   length (computed (snd (run_interpolation mock_env
         \<lparr>alpha = Fin (1 / 2), num_inference_steps = 50, seed_image_id = ''og_beat'',
          start = church_bells, endp = jazz\<rparr> 7 ''ckpt'' ''cpu'' ''wav''
         (replay mock_env
            [(\<lparr>alpha = Fin 1, num_inference_steps = 50, seed_image_id = ''og_beat'',
               start = church_bells, endp = jazz\<rparr>, 7, ''ckpt'', ''cpu'', ''wav'')]
            (snd (run_interpolation mock_env
               \<lparr>alpha = Fin (1 / 2), num_inference_steps = 50, seed_image_id = ''og_beat'',
                start = church_bells, endp = jazz\<rparr> 7 ''ckpt'' ''cpu'' ''wav''
               empty_session)))))) = 2"
proof -
  let ?i = "\<lparr>alpha = Fin (1 / 2), num_inference_steps = 50, seed_image_id = ''og_beat'',
             start = church_bells, endp = jazz\<rparr>"
  let ?calls = "[(\<lparr>alpha = Fin 1, num_inference_steps = 50, seed_image_id = ''og_beat'',
             start = church_bells, endp = jazz\<rparr>, 7::nat, ''ckpt'', ''cpu'', ''wav'')]"
  have first: "fst (run_interpolation mock_env ?i 7 ''ckpt'' ''cpu'' ''wav'' empty_session) =
      Inr (2, \<lparr>getvalue = ''aa'', tell = 0\<rparr>)"
    by (simp add: run_interpolation_def run_interpolation_body_def mock_env_def
        empty_session_def Let_def numeral_2_eq_2)
  have between: "length (computed (replay mock_env ?calls
      (snd (run_interpolation mock_env ?i 7 ''ckpt'' ''cpu'' ''wav'' empty_session)))) = 2"
    by (simp add: run_interpolation_def run_interpolation_body_def mock_env_def
        empty_session_def church_bells_def jazz_def Let_def)
  show ?thesis
    using cached_inference_memoizes [of mock_env ?i 7 "''ckpt''" "''cpu''" "''wav''"
        empty_session ?calls] first between
    by simp
qed

text \<open>
  C9. The schedule computed by \<^verbatim>\<open>render\<close> and the one computed by
  \<^verbatim>\<open>prepare_interpolation\<close> are the same for every step count and exponent, and the two
  concatenations give the same result, or the same error, for every list of segments.
\<close>

theorem render_and_prepare_agree:
  "render_alphas libm n p = prepare_alphas libm n p \<and>
   render_concat segs = prepare_concat segs"
  by (simp add: render_alphas_def prepare_alphas_def render_concat_def prepare_concat_def)

text \<open>
  C10. With both prompts given, the seed image \<^verbatim>\<open>custom\<close> and a raw buffer as the file,
  \<^verbatim>\<open>prepare_interpolation\<close> ends in an \<^verbatim>\<open>AttributeError\<close> for every buffer, before any
  inference call; the custom branch yields an image only for an object that is already a
  decoded image, which it converts.
\<close>

theorem custom_buffer_attribute_error:
  "prepare_interpolation env ext n k g ''custom'' (Some (Buffer raw)) p so si (Some a) (Some b) s =
     (Inl (AttributeError ''_io.BytesIO object has no attribute convert''), s) \<and>
   prepare_init_image env ''custom'' (Some (Decoded im)) = Inr (convert_RGB env im)"
  by (simp add: prepare_interpolation_def prepare_init_image_def)

end
